theory Spec2Isabelle
  imports Main
begin

section \<open>The headless node tree of docx-preview.ts\<close>

text \<open>
  The normalizer \<^verbatim>\<open>handleXmlNode\<close> runs over a tree built on the xmldom
  implementation. An element carries its tag name, its attribute list, and the plain
  JavaScript properties the renderer stages on it (the shadow fields). A shadow field
  that is \<^verbatim>\<open>null\<close> or \<^verbatim>\<open>undefined\<close> is \<open>None\<close>.

  \<^item> \<open>className\<close>, \<open>innerHTML\<close>, \<open>src\<close>: strings; the empty string is falsy.
  \<^item> \<open>priv_classList\<close> is the property \<^verbatim>\<open>_classList\<close>: an array of tokens; every
    array, also the empty one, is truthy.
  \<^item> \<open>priv_style\<close> is the property \<^verbatim>\<open>_style\<close>: an object, given by its own
    entries in the order \<^verbatim>\<open>Object.keys\<close> enumerates them (insertion order for
    property names that are not array indices); every object, also the empty one, is truthy.
  \<^item> \<open>rowSpan\<close>, \<open>colSpan\<close>: JavaScript numbers (on xmldom these are plain
    properties, so any number can stand there); zero and \<^verbatim>\<open>NaN\<close> are falsy.
\<close>

text \<open>
  A JavaScript number, as \<^verbatim>\<open>Number.prototype.toString\<close> reads it (ECMA-262,
  Number::toString, radix 10). \<open>Finite neg s n\<close> is the number whose magnitude is
  \<open>s \<times> 10\<^sup>n\<^sup>-\<^sup>k\<close>, where \<open>k\<close> is the number of decimal digits of \<open>s\<close>, and which is
  negative when \<open>neg\<close> holds: \<open>s\<close>, \<open>n\<close> and \<open>k\<close> are the integers of that name in
  the algorithm, \<open>s\<close> being the shortest digit string that identifies the number (so it
  has no trailing zero). \<open>s = 0\<close> is the number zero, of either sign. So \<open>2\<close> is
  \<open>Finite False 2 1\<close>, \<open>-1\<close> is \<open>Finite True 1 1\<close>, \<open>2.5\<close> is \<open>Finite False 25 1\<close> and
  \<open>10\<^sup>2\<^sup>1\<close> is \<open>Finite False 1 22\<close>.
\<close>

datatype js_number =
    NaN
  | Infinity bool
  | Finite bool nat int

record element =
  tagName :: string
  attributes :: "(string \<times> string) list"
  className :: "string option"
  priv_classList :: "string list option"
  innerHTML :: "string option"
  priv_style :: "(string \<times> string) list option"
  rowSpan :: "js_number option"
  colSpan :: "js_number option"
  src :: "string option"

text \<open>
  Node kinds, with the value of \<^verbatim>\<open>nodeType\<close> each has. xmldom gives a child list
  to elements and document fragments; on text and comment nodes \<^verbatim>\<open>childNodes\<close> is
  \<^verbatim>\<open>null\<close>, the case the guard at line 133 of \<^verbatim>\<open>handleXmlNode\<close> tests for.
\<close>

datatype node =
    Element element "node list"
  | Text string
  | Comment string
  | DocumentFragment "node list"

fun nodeType :: "node \<Rightarrow> nat" where
  "nodeType (Element e cs) = 1"
| "nodeType (Text s) = 3"
| "nodeType (Comment s) = 8"
| "nodeType (DocumentFragment cs) = 11"

fun childNodes :: "node \<Rightarrow> node list option" where
  "childNodes (Element e cs) = Some cs"
| "childNodes (Text s) = None"
| "childNodes (Comment s) = None"
| "childNodes (DocumentFragment cs) = Some cs"

fun setChildNodes :: "node list \<Rightarrow> node \<Rightarrow> node" where
  "setChildNodes cs' (Element e cs) = Element e cs'"
| "setChildNodes cs' (DocumentFragment cs) = DocumentFragment cs'"
| "setChildNodes cs' n = n"

definition isElement :: "node \<Rightarrow> bool" where
  "isElement v = (nodeType v = 1)"

definition isTableCell :: "element \<Rightarrow> bool" where
  "isTableCell v = (tagName v = ''td'')"

definition isImage :: "element \<Rightarrow> bool" where
  "isImage v = (tagName v = ''img'')"

subsection \<open>JavaScript values\<close>

definition truthy_string :: "string option \<Rightarrow> bool" where
  "truthy_string v = (case v of None \<Rightarrow> False | Some s \<Rightarrow> s \<noteq> [])"

text \<open>\<^verbatim>\<open>ToBoolean\<close> of a number: false for zero and \<^verbatim>\<open>NaN\<close>.\<close>

fun number_truthy :: "js_number \<Rightarrow> bool" where
  "number_truthy NaN = False"
| "number_truthy (Infinity neg) = True"
| "number_truthy (Finite neg s n) = (s \<noteq> 0)"

definition truthy_number :: "js_number option \<Rightarrow> bool" where
  "truthy_number v = (case v of None \<Rightarrow> False | Some x \<Rightarrow> number_truthy x)"

text \<open>\<^verbatim>\<open>Array.prototype.join\<close> on an array of strings.\<close>

fun join :: "string \<Rightarrow> string list \<Rightarrow> string" where
  "join sep [] = []"
| "join sep [x] = x"
| "join sep (x # y # ys) = x @ sep @ join sep (y # ys)"

text \<open>The decimal numeral of a natural number.\<close>

definition digit :: "nat \<Rightarrow> char" where
  "digit d = ''0123456789'' ! d"

fun decimal :: "nat \<Rightarrow> string" where
  "decimal n = (if n < 10 then [digit n] else decimal (n div 10) @ [digit (n mod 10)])"

declare decimal.simps [simp del]

text \<open>
  \<^verbatim>\<open>Number.prototype.toString\<close> with no radix. For a finite number other than
  zero, with \<open>k\<close> digits in \<open>s\<close>: the digits and \<open>n - k\<close> zeros when \<open>k \<le> n \<le> 21\<close>; a
  point after the first \<open>n\<close> digits when \<open>0 < n \<le> 21\<close>; \<open>0.\<close>, \<open>-n\<close> zeros and the digits
  when \<open>-6 < n \<le> 0\<close>; and otherwise the exponent form, with the exponent \<open>n - 1\<close>.
\<close>

definition exponent_part :: "int \<Rightarrow> string" where
  "exponent_part e = (if e < 0 then ''-'' else ''+'') @ decimal (nat \<bar>e\<bar>)"

definition finite_toString :: "nat \<Rightarrow> int \<Rightarrow> string" where
  "finite_toString s n =
     (let ds = decimal s; k = int (length ds)
      in if k \<le> n \<and> n \<le> 21 then ds @ replicate (nat (n - k)) CHR ''0''
         else if 0 < n \<and> n \<le> 21 then take (nat n) ds @ ''.'' @ drop (nat n) ds
         else if - 6 < n \<and> n \<le> 0 then ''0.'' @ replicate (nat (- n)) CHR ''0'' @ ds
         else if k = 1 then ds @ ''e'' @ exponent_part (n - 1)
         else take 1 ds @ ''.'' @ drop 1 ds @ ''e'' @ exponent_part (n - 1))"

fun toString :: "js_number \<Rightarrow> string" where
  "toString NaN = ''NaN''"
| "toString (Infinity neg) = (if neg then ''-Infinity'' else ''Infinity'')"
| "toString (Finite neg s n) =
     (if s = 0 then ''0'' else (if neg then ''-'' else []) @ finite_toString s n)"

text \<open>
  The number an integer is: its digits without the trailing zeros, and the number of
  its digits.
\<close>

fun strip_zeros :: "nat \<Rightarrow> nat" where
  "strip_zeros n = (if n \<noteq> 0 \<and> n mod 10 = 0 then strip_zeros (n div 10) else n)"

declare strip_zeros.simps [simp del]

definition js_int :: "int \<Rightarrow> js_number" where
  "js_int m = Finite (m < 0) (strip_zeros (nat \<bar>m\<bar>)) (int (length (decimal (nat \<bar>m\<bar>))))"



subsection \<open>kebabCase (lines 93-95)\<close>

text \<open>
  \<^verbatim>\<open>property.replace(/[A-Z]/g, char => `-${char.toLowerCase()}`)\<close>: every
  match of the class \<^verbatim>\<open>[A-Z]\<close> is replaced, wherever it stands.
\<close>

definition upper_AZ :: string where
  "upper_AZ = ''ABCDEFGHIJKLMNOPQRSTUVWXYZ''"

definition lower_az :: string where
  "lower_az = ''abcdefghijklmnopqrstuvwxyz''"

definition isUpperAZ :: "char \<Rightarrow> bool" where
  "isUpperAZ c = (c \<in> set upper_AZ)"

definition toLowerCase :: "char \<Rightarrow> char" where
  "toLowerCase c = (case map_of (zip upper_AZ lower_az) c of Some l \<Rightarrow> l | None \<Rightarrow> c)"

definition kebabCase :: "string \<Rightarrow> string" where
  "kebabCase property =
     concat (map (\<lambda>c. if isUpperAZ c then [CHR ''-'', toLowerCase c] else [c]) property)"

text \<open>
  The conversion as the specification words it: a hyphen goes before every
  \<^emph>\<open>internal\<close> uppercase letter, which is lower-cased; a leading uppercase
  letter is lower-cased and gains no hyphen.
\<close>

fun hyphenate :: "bool \<Rightarrow> string \<Rightarrow> string" where
  "hyphenate leading [] = []"
| "hyphenate leading (c # cs) =
     (if isUpperAZ c
      then (if leading then [toLowerCase c] else [CHR ''-'', toLowerCase c])
      else [c]) @ hyphenate False cs"

definition kebab_internal :: "string \<Rightarrow> string" where
  "kebab_internal property = hyphenate True property"

subsection \<open>Attributes\<close>

text \<open>
  \<^verbatim>\<open>setAttribute\<close> replaces the value of an attribute the element has, in
  place, and appends the attribute otherwise.
\<close>

fun put_attr :: "string \<Rightarrow> string \<Rightarrow> (string \<times> string) list \<Rightarrow> (string \<times> string) list" where
  "put_attr name v [] = [(name, v)]"
| "put_attr name v (a # as) = (if fst a = name then (name, v) # as else a # put_attr name v as)"

definition setAttribute :: "string \<Rightarrow> string \<Rightarrow> element \<Rightarrow> element" where
  "setAttribute name v e = e\<lparr>attributes := put_attr name v (attributes e)\<rparr>"

definition getAttribute :: "string \<Rightarrow> element \<Rightarrow> string option" where
  "getAttribute name e = map_of (attributes e) name"

subsection \<open>The accessors the shim installs (lines 168-188)\<close>

text \<open>
  A getter returns the backing field when it is truthy and otherwise stores a fresh
  empty value in it; the setter replaces the field.
\<close>

definition style_get :: "element \<Rightarrow> (string \<times> string) list \<times> element" where
  "style_get this =
     (case priv_style this of
        Some m \<Rightarrow> (m, this)
      | None \<Rightarrow> ([], this\<lparr>priv_style := Some []\<rparr>))"

definition style_set :: "(string \<times> string) list option \<Rightarrow> element \<Rightarrow> element" where
  "style_set v this = this\<lparr>priv_style := v\<rparr>"

definition classList_get :: "element \<Rightarrow> string list \<times> element" where
  "classList_get this =
     (case priv_classList this of
        Some l \<Rightarrow> (l, this)
      | None \<Rightarrow> ([], this\<lparr>priv_classList := Some []\<rparr>))"

definition classList_set :: "string list option \<Rightarrow> element \<Rightarrow> element" where
  "classList_set v this = this\<lparr>priv_classList := v\<rparr>"

section \<open>The DOM compatibility shim (lines 152-204)\<close>

text \<open>
  The prototype the shim patches is \<^verbatim>\<open>Node.prototype\<close> of xmldom, one object for the
  whole process: its own properties in creation order, and whether it is extensible.
  \<^verbatim>\<open>Object.defineProperty\<close> throws a \<^verbatim>\<open>TypeError\<close> when it has to add a
  property to an object that is not extensible, or to redefine a property that is not
  configurable. A property defined with no \<^verbatim>\<open>configurable\<close> key is not configurable.
\<close>

datatype js_error = TypeError

datatype accessor =
    FirstElementChildGetter
  | StyleAccessor
  | ClassListAccessor
  | Native nat

record property =
  accessor :: accessor
  configurable :: bool

record prototype =
  own_properties :: "(string \<times> property) list"
  extensible :: bool

definition hasOwnProperty :: "prototype \<Rightarrow> string \<Rightarrow> bool" where
  "hasOwnProperty proto name = (map_of (own_properties proto) name \<noteq> None)"

fun redefine :: "string \<Rightarrow> property \<Rightarrow> (string \<times> property) list \<Rightarrow> (string \<times> property) list" where
  "redefine name d [] = []"
| "redefine name d (p # ps) = (if fst p = name then (name, d) # ps else p # redefine name d ps)"

definition defineProperty :: "string \<Rightarrow> property \<Rightarrow> prototype \<Rightarrow> js_error + prototype" where
  "defineProperty name d proto =
     (case map_of (own_properties proto) name of
        None \<Rightarrow>
          if extensible proto
          then Inr (proto\<lparr>own_properties := own_properties proto @ [(name, d)]\<rparr>)
          else Inl TypeError
      | Some current \<Rightarrow>
          if configurable current
          then Inr (proto\<lparr>own_properties := redefine name d (own_properties proto)\<rparr>)
          else Inl TypeError)"

text \<open>One guarded installation: lines 160-166, 168-177 and 179-188 have this shape.\<close>

definition install :: "string \<Rightarrow> accessor \<Rightarrow> prototype \<Rightarrow> js_error + prototype" where
  "install name a proto =
     (if \<not> hasOwnProperty proto name
      then defineProperty name \<lparr>accessor = a, configurable = False\<rparr> proto
      else Inr proto)"

definition initXmlDom :: "bool \<Rightarrow> prototype \<Rightarrow> js_error + prototype" where
  "initXmlDom IS_BROWSER proto =
     (if IS_BROWSER then Inr proto
      else
        (case install ''firstElementChild'' FirstElementChildGetter proto of
           Inl err \<Rightarrow> Inl err
         | Inr proto1 \<Rightarrow>
             (case install ''style'' StyleAccessor proto1 of
                Inl err \<Rightarrow> Inl err
              | Inr proto2 \<Rightarrow> install ''classList'' ClassListAccessor proto2)))"

text \<open>The three properties of the shim, in the order \<^verbatim>\<open>initXmlDom\<close> installs them.\<close>

definition shim_properties :: "(string \<times> property) list" where
  "shim_properties =
     [(''firstElementChild'', \<lparr>accessor = FirstElementChildGetter, configurable = False\<rparr>),
      (''style'', \<lparr>accessor = StyleAccessor, configurable = False\<rparr>),
      (''classList'', \<lparr>accessor = ClassListAccessor, configurable = False\<rparr>)]"

subsection \<open>getFirstElementChild (lines 191-202)\<close>

text \<open>
  The loop of \<^verbatim>\<open>getFirstElementChild\<close> from index \<open>i\<close>. Reading
  \<^verbatim>\<open>children.length\<close> when \<^verbatim>\<open>childNodes\<close> is null throws a
  \<^verbatim>\<open>TypeError\<close>.
\<close>

function firstElementFrom :: "nat \<Rightarrow> node list \<Rightarrow> node option" where
  "firstElementFrom i children =
     (if i < length children
      then (if nodeType (children ! i) = 1 then Some (children ! i)
            else firstElementFrom (i + 1) children)
      else None)"
  by pat_completeness auto
termination
  by (relation "measure (\<lambda>(i, children). length children - i)") auto

declare firstElementFrom.simps [simp del]

definition getFirstElementChild :: "node option \<Rightarrow> js_error + node option" where
  "getFirstElementChild node =
     (case node of
        None \<Rightarrow> Inr None
      | Some n \<Rightarrow>
          (case childNodes n of
             None \<Rightarrow> Inl TypeError
           | Some children \<Rightarrow> Inr (firstElementFrom 0 children)))"

text \<open>The getter of lines 162-164, read on the node \<open>this\<close>.\<close>

definition firstElementChild_get :: "node \<Rightarrow> js_error + node option" where
  "firstElementChild_get this = getFirstElementChild (Some this)"

section \<open>The tree normalizer (lines 97-138)\<close>

subsection \<open>The fixups of one element (lines 99-130)\<close>

text \<open>Lines 99-102: a truthy \<^verbatim>\<open>className\<close> becomes the class attribute and is set to null.\<close>

definition fix_className :: "element \<Rightarrow> element" where
  "fix_className e =
     (case className e of
        None \<Rightarrow> e
      | Some s \<Rightarrow> if s \<noteq> [] then (setAttribute ''class'' s e)\<lparr>className := None\<rparr> else e)"

text \<open>
  Lines 103-106: the test is on the field \<^verbatim>\<open>_classList\<close> itself, so it holds for every
  array; the tokens are then read through the \<^verbatim>\<open>classList\<close> getter.
\<close>

definition fix_classList :: "element \<Rightarrow> element" where
  "fix_classList e =
     (case priv_classList e of
        None \<Rightarrow> e
      | Some _ \<Rightarrow>
          (case classList_get e of
             (tokens, e1) \<Rightarrow> (setAttribute ''class'' (join '' '' tokens) e1)\<lparr>priv_classList := None\<rparr>))"

text \<open>
  Lines 107-111: a truthy \<^verbatim>\<open>innerHTML\<close> becomes a new text node
  (\<^verbatim>\<open>createTextNode\<close>), appended after the element's children
  (\<^verbatim>\<open>appendChild\<close>).
\<close>

definition createTextNode :: "string \<Rightarrow> node" where
  "createTextNode s = Text s"

definition appendChild :: "node \<Rightarrow> node list \<Rightarrow> node list" where
  "appendChild c cs = cs @ [c]"

definition fix_innerHTML :: "element \<times> node list \<Rightarrow> element \<times> node list" where
  "fix_innerHTML n =
     (case n of (e, cs) \<Rightarrow>
        (case innerHTML e of
           None \<Rightarrow> (e, cs)
         | Some s \<Rightarrow>
             if s \<noteq> [] then (e\<lparr>innerHTML := None\<rparr>, appendChild (createTextNode s) cs)
             else (e, cs)))"

text \<open>
  Lines 112-118: the test is on the field \<^verbatim>\<open>_style\<close> itself, so it holds for every
  object. \<^verbatim>\<open>Object.keys(node.style)\<close> lists the keys, and each
  \<^verbatim>\<open>node.style[key]\<close> looks the value up again.
\<close>

definition object_keys :: "(string \<times> string) list \<Rightarrow> string list" where
  "object_keys obj = map fst obj"

definition property_value :: "(string \<times> string) list \<Rightarrow> string \<Rightarrow> string" where
  "property_value obj key = (case map_of obj key of Some v \<Rightarrow> v | None \<Rightarrow> ''undefined'')"

definition fix_style :: "element \<Rightarrow> element" where
  "fix_style e =
     (case priv_style e of
        None \<Rightarrow> e
      | Some _ \<Rightarrow>
          (case style_get e of
             (obj, e1) \<Rightarrow>
               (let styles = map (\<lambda>key. kebabCase key @ '': '' @ property_value obj key)
                                 (object_keys obj)
                in (setAttribute ''style'' (join ''; '' styles) e1)\<lparr>priv_style := None\<rparr>)))"

text \<open>Lines 119-130: the spans of a table cell, or else the source of an image.\<close>

definition fix_rowSpan :: "element \<Rightarrow> element" where
  "fix_rowSpan e =
     (case rowSpan e of
        None \<Rightarrow> e
      | Some n \<Rightarrow> if number_truthy n then setAttribute ''rowspan'' (toString n) e else e)"

definition fix_colSpan :: "element \<Rightarrow> element" where
  "fix_colSpan e =
     (case colSpan e of
        None \<Rightarrow> e
      | Some n \<Rightarrow> if number_truthy n then setAttribute ''colspan'' (toString n) e else e)"

definition fix_src :: "element \<Rightarrow> element" where
  "fix_src e =
     (case src e of
        None \<Rightarrow> e
      | Some s \<Rightarrow> if s \<noteq> [] then (setAttribute ''src'' s e)\<lparr>src := None\<rparr> else e)"

definition fix_tag :: "element \<Rightarrow> element" where
  "fix_tag e =
     (if isTableCell e then fix_colSpan (fix_rowSpan e)
      else if isImage e then fix_src e
      else e)"

definition handleElement :: "element \<Rightarrow> node list \<Rightarrow> element \<times> node list" where
  "handleElement e cs =
     (case fix_innerHTML (fix_classList (fix_className e), cs) of
        (e3, cs') \<Rightarrow> (fix_tag (fix_style e3), cs'))"

fun element_fixups :: "node \<Rightarrow> node" where
  "element_fixups (Element e cs) = (case handleElement e cs of (e', cs') \<Rightarrow> Element e' cs')"
| "element_fixups n = n"

section \<open>Predicates on trees, and concrete nodes\<close>

text \<open>\<open>all_elements P n\<close>: \<open>P\<close> holds of every element of the tree \<open>n\<close>.\<close>

fun all_elements :: "(element \<Rightarrow> bool) \<Rightarrow> node \<Rightarrow> bool" where
  "all_elements P (Element e cs) = (P e \<and> list_all (all_elements P) cs)"
| "all_elements P (DocumentFragment cs) = list_all (all_elements P) cs"
| "all_elements P (Text s) = True"
| "all_elements P (Comment s) = True"

text \<open>No shadow state at all on an element: every shadow field is null or falsy.\<close>

definition shadow_free :: "element \<Rightarrow> bool" where
  "shadow_free e =
     (\<not> truthy_string (className e) \<and> priv_classList e = None
      \<and> \<not> truthy_string (innerHTML e) \<and> priv_style e = None
      \<and> \<not> truthy_number (rowSpan e) \<and> \<not> truthy_number (colSpan e)
      \<and> \<not> truthy_string (src e))"

text \<open>
  What the pass does clear: the class name, the token list, the injected markup and the
  style mapping of every element, and the source of an image.
\<close>

definition shadow_cleared :: "element \<Rightarrow> bool" where
  "shadow_cleared e =
     (\<not> truthy_string (className e) \<and> priv_classList e = None
      \<and> \<not> truthy_string (innerHTML e) \<and> priv_style e = None
      \<and> (if isImage e then \<not> truthy_string (src e) else True))"

definition standard_names :: "string list" where
  "standard_names = [''class'', ''style'', ''rowspan'', ''colspan'', ''src'']"

definition standard_attributes :: "element \<Rightarrow> bool" where
  "standard_attributes e = list_all (\<lambda>a. fst a \<in> set standard_names) (attributes e)"

text \<open>An element as \<^verbatim>\<open>doc.createElement\<close> returns it: no attribute, no shadow field.\<close>

definition createElement :: "string \<Rightarrow> element" where
  "createElement tag =
     \<lparr>tagName = tag, attributes = [], className = None, priv_classList = None,
      innerHTML = None, priv_style = None, rowSpan = None, colSpan = None, src = None\<rparr>"

definition div_hello :: element where
  "div_hello = (createElement ''div'')\<lparr>innerHTML := Some ''Hello & <b>''\<rparr>"

definition td_2_3 :: element where
  "td_2_3 = (createElement ''td'')\<lparr>rowSpan := Some (js_int 2), colSpan := Some (js_int 3)\<rparr>"



definition iframe_src :: element where
  "iframe_src = (createElement ''iframe'')\<lparr>src := Some ''a.html''\<rparr>"

definition div_id :: element where
  "div_id = (createElement ''div'')\<lparr>attributes := [(''id'', ''top'')]\<rparr>"

definition img_data :: element where
  "img_data = (createElement ''img'')
     \<lparr>className := Some ''pic'', src := Some ''data:image/png;base64,AAAA''\<rparr>"

text \<open>A prototype that already has a \<^verbatim>\<open>style\<close> property of its own.\<close>

definition native_proto :: prototype where
  "native_proto =
     \<lparr>own_properties = [(''nodeType'', \<lparr>accessor = Native 0, configurable = True\<rparr>),
                        (''style'', \<lparr>accessor = Native 1, configurable = True\<rparr>)],
      extensible = True\<rparr>"

definition upper_TD :: element where
  "upper_TD = (createElement ''TD'')\<lparr>rowSpan := Some (js_int 2), colSpan := Some (js_int 3), src := Some ''a.png''\<rparr>"

definition upper_IMG :: element where
  "upper_IMG = (createElement ''IMG'')\<lparr>rowSpan := Some (js_int 2), colSpan := Some (js_int 3), src := Some ''a.png''\<rparr>"

definition class_a_empty :: element where
  "class_a_empty = (createElement ''div'')\<lparr>className := Some ''a'', priv_classList := Some []\<rparr>"

definition class_x_y :: element where
  "class_x_y = (createElement ''div'')\<lparr>className := Some ''a'', priv_classList := Some [''x'', ''y'']\<rparr>"

definition style_webkit :: element where
  "style_webkit = (createElement ''div'')
     \<lparr>priv_style := Some [(''WebkitTransform'', ''none''), (''fontSize'', ''12pt'')]\<rparr>"

definition style_empty :: element where
  "style_empty = (createElement ''div'')\<lparr>priv_style := Some []\<rparr>"

definition style_font :: element where
  "style_font = (createElement ''div'')
     \<lparr>priv_style := Some [(''fontSize'', ''12pt''), (''color'', ''red'')]\<rparr>"

section \<open>The walk of the normalizer (lines 97-98 and 133-137)\<close>

text \<open>
  The measure of the walk: one unit for each node, and one more for each element whose
  \<^verbatim>\<open>innerHTML\<close> is truthy, for the text node its fixup is going to append.
\<close>

fun work :: "node \<Rightarrow> nat" where
  "work (Element e cs) = 1 + (if truthy_string (innerHTML e) then 1 else 0) + sum_list (map work cs)"
| "work (Text s) = 1"
| "work (Comment s) = 1"
| "work (DocumentFragment cs) = 1 + sum_list (map work cs)"

text \<open>What each fixup leaves alone, and what the fixups do to the child list.\<close>

lemma setAttribute_fields [simp]:
  "tagName (setAttribute k v e) = tagName e"
  "className (setAttribute k v e) = className e"
  "priv_classList (setAttribute k v e) = priv_classList e"
  "innerHTML (setAttribute k v e) = innerHTML e"
  "priv_style (setAttribute k v e) = priv_style e"
  "rowSpan (setAttribute k v e) = rowSpan e"
  "colSpan (setAttribute k v e) = colSpan e"
  "src (setAttribute k v e) = src e"
  "attributes (setAttribute k v e) = put_attr k v (attributes e)"
  by (simp_all add: setAttribute_def)

lemma fix_className_fields [simp]:
  "tagName (fix_className e) = tagName e"
  "priv_classList (fix_className e) = priv_classList e"
  "innerHTML (fix_className e) = innerHTML e"
  "priv_style (fix_className e) = priv_style e"
  "rowSpan (fix_className e) = rowSpan e"
  "colSpan (fix_className e) = colSpan e"
  "src (fix_className e) = src e"
  by (simp_all add: fix_className_def split: option.splits)

lemma fix_classList_fields [simp]:
  "tagName (fix_classList e) = tagName e"
  "className (fix_classList e) = className e"
  "innerHTML (fix_classList e) = innerHTML e"
  "priv_style (fix_classList e) = priv_style e"
  "rowSpan (fix_classList e) = rowSpan e"
  "colSpan (fix_classList e) = colSpan e"
  "src (fix_classList e) = src e"
  "priv_classList (fix_classList e) = None"
  by (simp_all add: fix_classList_def classList_get_def split: option.splits)

lemma fix_style_fields [simp]:
  "tagName (fix_style e) = tagName e"
  "className (fix_style e) = className e"
  "priv_classList (fix_style e) = priv_classList e"
  "innerHTML (fix_style e) = innerHTML e"
  "rowSpan (fix_style e) = rowSpan e"
  "colSpan (fix_style e) = colSpan e"
  "src (fix_style e) = src e"
  "priv_style (fix_style e) = None"
  by (simp_all add: fix_style_def style_get_def split: option.splits)

lemma fix_rowSpan_fields [simp]:
  "tagName (fix_rowSpan e) = tagName e"
  "className (fix_rowSpan e) = className e"
  "priv_classList (fix_rowSpan e) = priv_classList e"
  "innerHTML (fix_rowSpan e) = innerHTML e"
  "priv_style (fix_rowSpan e) = priv_style e"
  "rowSpan (fix_rowSpan e) = rowSpan e"
  "colSpan (fix_rowSpan e) = colSpan e"
  "src (fix_rowSpan e) = src e"
  by (simp_all add: fix_rowSpan_def split: option.splits)

lemma fix_colSpan_fields [simp]:
  "tagName (fix_colSpan e) = tagName e"
  "className (fix_colSpan e) = className e"
  "priv_classList (fix_colSpan e) = priv_classList e"
  "innerHTML (fix_colSpan e) = innerHTML e"
  "priv_style (fix_colSpan e) = priv_style e"
  "rowSpan (fix_colSpan e) = rowSpan e"
  "colSpan (fix_colSpan e) = colSpan e"
  "src (fix_colSpan e) = src e"
  by (simp_all add: fix_colSpan_def split: option.splits)

lemma fix_src_fields [simp]:
  "tagName (fix_src e) = tagName e"
  "className (fix_src e) = className e"
  "priv_classList (fix_src e) = priv_classList e"
  "innerHTML (fix_src e) = innerHTML e"
  "priv_style (fix_src e) = priv_style e"
  "rowSpan (fix_src e) = rowSpan e"
  "colSpan (fix_src e) = colSpan e"
  by (simp_all add: fix_src_def split: option.splits)

lemma fix_tag_fields [simp]:
  "tagName (fix_tag e) = tagName e"
  "className (fix_tag e) = className e"
  "priv_classList (fix_tag e) = priv_classList e"
  "innerHTML (fix_tag e) = innerHTML e"
  "priv_style (fix_tag e) = priv_style e"
  "rowSpan (fix_tag e) = rowSpan e"
  "colSpan (fix_tag e) = colSpan e"
  by (simp_all add: fix_tag_def)

lemma handleElement_truthy:
  "innerHTML e = Some s \<Longrightarrow> s \<noteq> [] \<Longrightarrow>
   handleElement e cs =
     (fix_tag (fix_style ((fix_classList (fix_className e))\<lparr>innerHTML := None\<rparr>)), cs @ [Text s])"
  by (simp add: handleElement_def fix_innerHTML_def appendChild_def createTextNode_def)

lemma handleElement_falsy:
  "\<not> truthy_string (innerHTML e) \<Longrightarrow>
   handleElement e cs = (fix_tag (fix_style (fix_classList (fix_className e))), cs)"
  by (simp add: handleElement_def fix_innerHTML_def truthy_string_def split: option.splits)

lemma truthy_stringE:
  assumes "truthy_string v"
  obtains s where "v = Some s" "s \<noteq> []"
  using assms by (auto simp: truthy_string_def split: option.splits)

lemma work_pos: "0 < work n"
  by (cases n) auto

lemma work_fixups:
  "childNodes (element_fixups n) = Some cs \<Longrightarrow> sum_list (map work cs) < work n"
proof (cases n)
  case (Element e ds)
  assume c: "childNodes (element_fixups n) = Some cs"
  show ?thesis
  proof (cases "truthy_string (innerHTML e)")
    case True
    then obtain s where "innerHTML e = Some s" "s \<noteq> []"
      by (rule truthy_stringE)
    with c Element True show ?thesis by (auto simp: handleElement_truthy)
  next
    case False
    with c Element show ?thesis by (auto simp: handleElement_falsy)
  qed
qed auto

lemma work_plain:
  "childNodes n = Some cs \<Longrightarrow> sum_list (map work cs) < work n"
  by (cases n) auto

text \<open>
  The measure of a call: twice the work of the node for \<open>handleXmlNode\<close>, and for the
  loop at index \<open>i\<close> twice the work of the children still to visit, plus one.
\<close>

definition walk_measure :: "node + nat \<times> node list \<Rightarrow> nat" where
  "walk_measure x =
     (case x of
        Inl n \<Rightarrow> 2 * work n
      | Inr (i, cs) \<Rightarrow> 2 * sum_list (map work (drop i cs)) + 1)"

lemma walk_measure_loop:
  "childNodes (if isElement node then element_fixups node else node) = Some cs \<Longrightarrow>
   walk_measure (Inr (0, cs)) < walk_measure (Inl node)"
proof -
  assume "childNodes (if isElement node then element_fixups node else node) = Some cs"
  then have "sum_list (map work cs) < work node"
    by (auto simp: work_fixups work_plain split: if_splits)
  then show ?thesis by (simp add: walk_measure_def)
qed

lemma walk_measure_child:
  "i < length cs \<Longrightarrow> walk_measure (Inl (cs ! i)) < walk_measure (Inr (i, cs))"
  by (simp add: walk_measure_def Cons_nth_drop_Suc [symmetric])

lemma walk_measure_next:
  "i < length cs \<Longrightarrow> walk_measure (Inr (Suc i, cs[i := c])) < walk_measure (Inr (i, cs))"
  using work_pos [of "cs ! i"] by (simp add: walk_measure_def Cons_nth_drop_Suc [symmetric])

text \<open>
  \<^verbatim>\<open>handleXmlNode\<close> and its child loop. The loop reads
  \<^verbatim>\<open>node.childNodes.length\<close> again at every iteration and handles the child at
  index \<open>i\<close> in place; \<open>handleChildNodes i cs\<close> is the loop from index \<open>i\<close> on
  the child list \<open>cs\<close>. The parameter \<^verbatim>\<open>depth\<close> of the source is never read and
  is left out.
\<close>

function handleXmlNode :: "node \<Rightarrow> node"
  and handleChildNodes :: "nat \<Rightarrow> node list \<Rightarrow> node list" where
  "handleXmlNode node =
     (let node1 = (if isElement node then element_fixups node else node)
      in case childNodes node1 of
           None \<Rightarrow> node1
         | Some cs \<Rightarrow> setChildNodes (handleChildNodes 0 cs) node1)"
| "handleChildNodes i cs =
     (if i < length cs
      then handleChildNodes (i + 1) (cs[i := handleXmlNode (cs ! i)])
      else cs)"
  by pat_completeness auto

lemma walk_all_dom: "All handleXmlNode_handleChildNodes_dom"
proof (relation "measure walk_measure")
  show "wf (measure walk_measure)" by simp
next
  fix node x cs
  assume "x = (if isElement node then element_fixups node else node)" "childNodes x = Some cs"
  then show "(Inr (0, cs), Inl node) \<in> measure walk_measure"
    by (simp add: walk_measure_loop)
next
  fix i and cs :: "node list"
  assume i: "i < length cs"
  then show "(Inl (cs ! i), Inr (i, cs)) \<in> measure walk_measure"
    by (simp add: walk_measure_child)
  from i show "(Inr (i + 1, cs[i := handleXmlNode (cs ! i)]), Inr (i, cs)) \<in> measure walk_measure"
    by (simp add: walk_measure_next)
qed

termination handleXmlNode
  using walk_all_dom by simp

declare handleXmlNode.simps [simp del] handleChildNodes.simps [simp del]

section \<open>The walk as a map over the children\<close>

lemma handleChildNodes_map:
  "handleChildNodes i cs = take i cs @ map handleXmlNode (drop i cs)"
proof (induction "length cs - i" arbitrary: i cs)
  case 0
  then show ?case by (simp add: handleChildNodes.simps [of i cs])
next
  case (Suc k)
  then have i: "i < length cs" by simp
  have "handleChildNodes i cs = handleChildNodes (i + 1) (cs[i := handleXmlNode (cs ! i)])"
    using i by (simp add: handleChildNodes.simps [of i cs])
  also have "\<dots> = take (i + 1) (cs[i := handleXmlNode (cs ! i)])
      @ map handleXmlNode (drop (i + 1) (cs[i := handleXmlNode (cs ! i)]))"
    using Suc by simp
  also have "\<dots> = take i cs @ map handleXmlNode (drop i cs)"
    using i by (simp add: take_Suc_conv_app_nth Cons_nth_drop_Suc [symmetric])
  finally show ?case .
qed

lemma handleXmlNode_Text [simp]: "handleXmlNode (Text s) = Text s"
  by (simp add: handleXmlNode.simps isElement_def)

lemma handleXmlNode_Comment [simp]: "handleXmlNode (Comment s) = Comment s"
  by (simp add: handleXmlNode.simps isElement_def)

lemma handleXmlNode_DocumentFragment [simp]:
  "handleXmlNode (DocumentFragment cs) = DocumentFragment (map handleXmlNode cs)"
  by (simp add: handleXmlNode.simps isElement_def handleChildNodes_map)

lemma handleXmlNode_Element:
  "handleXmlNode (Element e cs) =
     Element (fst (handleElement e cs)) (map handleXmlNode (snd (handleElement e cs)))"
  by (simp add: handleXmlNode.simps isElement_def handleChildNodes_map split: prod.splits)

text \<open>The definitions that evaluate the fixups on a concrete element.\<close>

lemmas fixup_defs =
  handleElement_def fix_innerHTML_def fix_className_def fix_classList_def classList_get_def
  fix_style_def style_get_def fix_tag_def fix_rowSpan_def fix_colSpan_def fix_src_def
  isTableCell_def isImage_def setAttribute_def getAttribute_def appendChild_def
  createTextNode_def object_keys_def property_value_def createElement_def

section \<open>Attributes and fixups: helper lemmas\<close>

lemma map_of_put_attr: "map_of (put_attr k v as) = (map_of as)(k \<mapsto> v)"
  by (induction as) (auto simp: fun_eq_iff)

lemma put_attr_same: "map_of as k = Some v \<Longrightarrow> put_attr k v as = as"
  by (induction as) (auto split: if_splits)

lemma put_attr_names: "set (map fst (put_attr k v as)) = insert k (set (map fst as))"
  by (induction as) auto

lemma getAttribute_setAttribute:
  "getAttribute k' (setAttribute k v e) = (if k' = k then Some v else getAttribute k' e)"
  by (simp add: getAttribute_def map_of_put_attr)

lemma getAttribute_update [simp]:
  "getAttribute k (e\<lparr>className := a\<rparr>) = getAttribute k e"
  "getAttribute k (e\<lparr>priv_classList := b\<rparr>) = getAttribute k e"
  "getAttribute k (e\<lparr>innerHTML := c\<rparr>) = getAttribute k e"
  "getAttribute k (e\<lparr>priv_style := d\<rparr>) = getAttribute k e"
  "getAttribute k (e\<lparr>src := f\<rparr>) = getAttribute k e"
  by (simp_all add: getAttribute_def)

lemma getAttribute_fix_className:
  "getAttribute k (fix_className e) =
     (if k = ''class'' \<and> truthy_string (className e) then className e else getAttribute k e)"
  by (auto simp: fix_className_def truthy_string_def getAttribute_setAttribute split: option.splits)

lemma className_fix_className: "\<not> truthy_string (className (fix_className e))"
  by (auto simp: fix_className_def truthy_string_def split: option.splits)

lemma fix_className_noop: "\<not> truthy_string (className e) \<Longrightarrow> fix_className e = e"
  by (auto simp: fix_className_def truthy_string_def split: option.splits)

lemma fix_classList_noop: "priv_classList e = None \<Longrightarrow> fix_classList e = e"
  by (simp add: fix_classList_def)

lemma getAttribute_fix_classList:
  "priv_classList e = Some tokens \<Longrightarrow>
   getAttribute k (fix_classList e) =
     (if k = ''class'' then Some (join '' '' tokens) else getAttribute k e)"
  by (simp add: fix_classList_def classList_get_def getAttribute_setAttribute)

lemma fix_style_noop: "priv_style e = None \<Longrightarrow> fix_style e = e"
  by (simp add: fix_style_def)

lemma getAttribute_fix_style:
  "priv_style e = Some obj \<Longrightarrow>
   getAttribute k (fix_style e) =
     (if k = ''style''
      then Some (join ''; '' (map (\<lambda>key. kebabCase key @ '': '' @ property_value obj key)
                  (object_keys obj)))
      else getAttribute k e)"
  by (simp add: fix_style_def style_get_def getAttribute_setAttribute)

lemma getAttribute_fix_rowSpan:
  "getAttribute k (fix_rowSpan e) =
     (case rowSpan e of
        Some n \<Rightarrow> if number_truthy n \<and> k = ''rowspan'' then Some (toString n)
                  else getAttribute k e
      | None \<Rightarrow> getAttribute k e)"
  by (simp add: fix_rowSpan_def getAttribute_setAttribute split: option.splits)

lemma getAttribute_fix_colSpan:
  "getAttribute k (fix_colSpan e) =
     (case colSpan e of
        Some n \<Rightarrow> if number_truthy n \<and> k = ''colspan'' then Some (toString n)
                  else getAttribute k e
      | None \<Rightarrow> getAttribute k e)"
  by (simp add: fix_colSpan_def getAttribute_setAttribute split: option.splits)

lemma getAttribute_fix_src:
  "getAttribute k (fix_src e) =
     (if k = ''src'' \<and> truthy_string (src e) then src e else getAttribute k e)"
  by (auto simp: fix_src_def truthy_string_def getAttribute_setAttribute split: option.splits)

lemma src_fix_src: "\<not> truthy_string (src (fix_src e))"
  by (auto simp: fix_src_def truthy_string_def split: option.splits)

lemma fix_src_noop: "\<not> truthy_string (src e) \<Longrightarrow> fix_src e = e"
  by (auto simp: fix_src_def truthy_string_def split: option.splits)

lemma fix_tag_other: "\<not> isTableCell e \<Longrightarrow> \<not> isImage e \<Longrightarrow> fix_tag e = e"
  by (simp add: fix_tag_def)

lemma handleElement_fst:
  "fst (handleElement e cs) =
     fix_tag (fix_style ((fix_classList (fix_className e))
       \<lparr>innerHTML := (if truthy_string (innerHTML e) then None else innerHTML e)\<rparr>))"
proof (cases "truthy_string (innerHTML e)")
  case True
  then obtain s where "innerHTML e = Some s" "s \<noteq> []" by (rule truthy_stringE)
  then show ?thesis using True by (simp add: handleElement_truthy)
next
  case False
  have h: "(fix_classList (fix_className e))\<lparr>innerHTML := innerHTML e\<rparr> = fix_classList (fix_className e)"
    by (rule element.equality) simp_all
  show ?thesis using False by (simp add: handleElement_falsy h)
qed

lemma handleElement_snd:
  "snd (handleElement e cs) =
     (case innerHTML e of
        Some s \<Rightarrow> if s \<noteq> [] then cs @ [Text s] else cs
      | None \<Rightarrow> cs)"
  by (auto simp: handleElement_truthy handleElement_falsy truthy_string_def split: option.splits)





text \<open>Integers below \<open>10\<^sup>2\<^sup>1\<close> in magnitude are written as their decimal numerals.\<close>

lemma decimal_times_10: "0 < a \<Longrightarrow> decimal (a * 10) = decimal a @ ''0''"
  by (simp add: decimal.simps [of "a * 10"] digit_def)

lemma decimal_times_pow: "0 < a \<Longrightarrow> decimal (a * 10 ^ j) = decimal a @ replicate j CHR ''0''"
proof (induction j)
  case 0
  then show ?case by simp
next
  case (Suc j)
  have "decimal (a * 10 ^ Suc j) = decimal ((a * 10 ^ j) * 10)"
    by (simp add: algebra_simps)
  also have "\<dots> = decimal (a * 10 ^ j) @ ''0''"
    using Suc.prems by (intro decimal_times_10) simp
  finally show ?case using Suc by (simp add: replicate_append_same)
qed

lemma strip_zeros_pos: "0 < n \<Longrightarrow> 0 < strip_zeros n"
proof (induction n rule: strip_zeros.induct)
  case (1 n)
  show ?case
  proof (cases "n mod 10 = 0")
    case True
    then have "0 < n div 10" using "1.prems" by (auto simp: div_greater_zero_iff dvd_imp_le)
    then show ?thesis using 1 True by (simp add: strip_zeros.simps [of n])
  next
    case False
    then show ?thesis using "1.prems" by (simp add: strip_zeros.simps [of n])
  qed
qed

lemma strip_zeros_zero [simp]: "strip_zeros 0 = 0"
  by (simp add: strip_zeros.simps [of 0])

lemma strip_zeros_eq_0: "(strip_zeros n = 0) = (n = 0)"
  using strip_zeros_pos [of n] by (cases "n = 0") auto

lemma strip_zeros_pow: "0 < n \<Longrightarrow> \<exists>j. n = strip_zeros n * 10 ^ j"
proof (induction n rule: strip_zeros.induct)
  case (1 n)
  show ?case
  proof (cases "n mod 10 = 0")
    case True
    then have p: "0 < n div 10" using "1.prems" by (auto simp: div_greater_zero_iff dvd_imp_le)
    then obtain j where "n div 10 = strip_zeros (n div 10) * 10 ^ j"
      using 1 True by auto
    moreover have "strip_zeros n = strip_zeros (n div 10)"
      using True "1.prems" by (simp add: strip_zeros.simps [of n])
    moreover have "n = (n div 10) * 10" using True by auto
    ultimately have "n = strip_zeros n * 10 ^ Suc j"
      by (metis mult.assoc mult.commute power_Suc)
    then show ?thesis by blast
  next
    case False
    then have "strip_zeros n = n" by (simp add: strip_zeros.simps [of n])
    then have "n = strip_zeros n * 10 ^ 0" by simp
    then show ?thesis by blast
  qed
qed

lemma length_decimal_le: "0 < j \<Longrightarrow> n < 10 ^ j \<Longrightarrow> length (decimal n) \<le> j"
proof (induction n arbitrary: j rule: decimal.induct)
  case (1 n)
  show ?case
  proof (cases "n < 10")
    case True
    then show ?thesis using "1.prems" by (simp add: decimal.simps [of n])
  next
    case False
    obtain i where j: "j = Suc i" using "1.prems" by (cases j) auto
    have "i \<noteq> 0" using False "1.prems" j by (cases i) auto
    moreover have "n div 10 < 10 ^ i" using "1.prems" j by (simp add: less_mult_imp_div_less mult.commute)
    ultimately have "length (decimal (n div 10)) \<le> i"
      using "1.IH" [of i] False by simp
    then show ?thesis using False j by (simp add: decimal.simps [of n])
  qed
qed

lemma finite_toString_integer:
  assumes "0 < n"
  shows "int (length (decimal n)) \<le> 21 \<Longrightarrow>
         finite_toString (strip_zeros n) (int (length (decimal n))) = decimal n"
proof -
  assume l: "int (length (decimal n)) \<le> 21"
  obtain j where j: "n = strip_zeros n * 10 ^ j" using strip_zeros_pow [OF assms] by blast
  have d: "decimal n = decimal (strip_zeros n) @ replicate j CHR ''0''"
    using decimal_times_pow [OF strip_zeros_pos [OF assms], of j] j by simp
  then have k: "length (decimal n) = length (decimal (strip_zeros n)) + j"
    by (metis length_append length_replicate)
  show ?thesis
    using l k d by (simp add: finite_toString_def Let_def)
qed

lemma toString_js_int:
  assumes "m \<noteq> 0" and "\<bar>m\<bar> < 10 ^ 21"
  shows "toString (js_int m) = (if m < 0 then ''-'' else []) @ decimal (nat \<bar>m\<bar>)"
proof -
  have p: "0 < nat \<bar>m\<bar>" using assms(1) by simp
  have "nat \<bar>m\<bar> < 10 ^ 21" using assms(2) by (simp add: nat_less_iff)
  then have "length (decimal (nat \<bar>m\<bar>)) \<le> 21"
    by (intro length_decimal_le) simp_all
  then have "finite_toString (strip_zeros (nat \<bar>m\<bar>)) (int (length (decimal (nat \<bar>m\<bar>))))
      = decimal (nat \<bar>m\<bar>)"
    using finite_toString_integer [OF p] by simp
  then show ?thesis
    using p by (simp add: js_int_def strip_zeros_eq_0)
qed

lemma number_truthy_js_int [simp]: "number_truthy (js_int m) = (m \<noteq> 0)"
  by (simp add: js_int_def strip_zeros_eq_0)

lemma decimal_1: "decimal (Suc 0) = ''1''"
  by (simp add: decimal.simps [of "Suc 0"] digit_def)

lemma decimal_2: "decimal 2 = ''2''"
  by (simp add: decimal.simps [of 2] digit_def)

lemma decimal_3: "decimal 3 = ''3''"
  by (simp add: decimal.simps [of 3] digit_def)

lemma toString_2: "toString (js_int 2) = ''2''"
  using toString_js_int [of 2] by (simp add: decimal_2)

lemma toString_3: "toString (js_int 3) = ''3''"
  using toString_js_int [of 3] by (simp add: decimal_3)

lemma toString_minus_1: "toString (js_int (- 1)) = ''-1''"
  using toString_js_int [of "- 1"] by (simp add: decimal_1)

lemma toString_1e21: "toString (Finite False 1 22) = ''1e+21''"
  by (simp add: finite_toString_def exponent_part_def decimal_1 decimal.simps [of 21]
      decimal_2 digit_def)

lemma toString_2_5: "toString (Finite False 25 1) = ''2.5''"
  by (simp add: finite_toString_def decimal.simps [of 25] decimal.simps [of 2] digit_def)

lemma getAttribute_fix_classList_other:
  "k \<noteq> ''class'' \<Longrightarrow> getAttribute k (fix_classList e) = getAttribute k e"
  by (cases "priv_classList e") (simp_all add: fix_classList_noop getAttribute_fix_classList)

lemma getAttribute_fix_style_other:
  "k \<noteq> ''style'' \<Longrightarrow> getAttribute k (fix_style e) = getAttribute k e"
  by (cases "priv_style e") (simp_all add: fix_style_noop getAttribute_fix_style)

lemma getAttribute_rules_1_4:
  "k \<noteq> ''class'' \<Longrightarrow> k \<noteq> ''style'' \<Longrightarrow>
   getAttribute k (fix_style ((fix_classList (fix_className e))\<lparr>innerHTML := x\<rparr>)) =
   getAttribute k e"
  by (simp add: getAttribute_fix_style_other getAttribute_fix_classList_other
      getAttribute_fix_className)

lemma getAttribute_fix_tag_other:
  "k \<noteq> ''rowspan'' \<Longrightarrow> k \<noteq> ''colspan'' \<Longrightarrow> k \<noteq> ''src'' \<Longrightarrow>
   getAttribute k (fix_tag e) = getAttribute k e"
  by (simp add: fix_tag_def getAttribute_fix_colSpan getAttribute_fix_rowSpan
      getAttribute_fix_src split: option.splits)

lemma fix_classList_noop_iff: "(fix_classList x = x) = (priv_classList x = None)"
proof
  assume "fix_classList x = x"
  then have "priv_classList (fix_classList x) = priv_classList x" by simp
  then show "priv_classList x = None" by simp
qed (rule fix_classList_noop)

lemma fix_style_noop_iff: "(fix_style x = x) = (priv_style x = None)"
proof
  assume "fix_style x = x"
  then have "priv_style (fix_style x) = priv_style x" by simp
  then show "priv_style x = None" by simp
qed (rule fix_style_noop)

lemma hyphenate_False: "hyphenate False s = kebabCase s"
  by (induction s) (simp_all add: kebabCase_def)

lemma kebabCase_leading:
  "kebabCase p = (if p \<noteq> [] \<and> isUpperAZ (hd p) then ''-'' else []) @ kebab_internal p"
  by (cases p) (simp_all add: kebab_internal_def hyphenate_False, simp_all add: kebabCase_def)

lemma property_value_entries:
  "distinct (map fst obj) \<Longrightarrow>
   map (\<lambda>key. f key (property_value obj key)) (object_keys obj) = map (\<lambda>(k, v). f k v) obj"
proof (induction obj)
  case Nil
  then show ?case by (simp add: object_keys_def)
next
  case (Cons a obj)
  obtain k v where a: "a = (k, v)" by (cases a)
  from Cons.prems have k: "k \<notin> fst ` set obj" and d: "distinct (map fst obj)"
    by (simp_all add: a)
  have "map (\<lambda>key. f key (property_value (a # obj) key)) (object_keys obj) =
        map (\<lambda>key. f key (property_value obj key)) (object_keys obj)"
    using k by (intro map_cong refl) (auto simp: property_value_def object_keys_def a)
  with Cons.IH [OF d] show ?case
    by (simp add: object_keys_def a property_value_def)
qed

lemmas letter_defs = kebabCase_def isUpperAZ_def toLowerCase_def upper_AZ_def lower_az_def

lemma kebabCase_WebkitTransform: "kebabCase ''WebkitTransform'' = ''-webkit-transform''"
  by (simp add: letter_defs)

lemma kebabCase_fontSize: "kebabCase ''fontSize'' = ''font-size''"
  by (simp add: letter_defs)

section \<open>The shim: helper lemmas\<close>

lemma firstElementFrom_find:
  "firstElementFrom i children = List.find isElement (drop i children)"
proof (induction i children rule: firstElementFrom.induct)
  case (1 i children)
  show ?case
  proof (cases "i < length children")
    case True
    then have d: "drop i children = children ! i # drop (Suc i) children"
      by (simp add: Cons_nth_drop_Suc)
    show ?thesis
      using True 1 by (simp add: firstElementFrom.simps [of i children] d isElement_def)
  next
    case False
    then show ?thesis by (simp add: firstElementFrom.simps [of i children])
  qed
qed

lemma find_first:
  "i < length xs \<Longrightarrow> P (xs ! i) \<Longrightarrow> list_all (\<lambda>x. \<not> P x) (take i xs) \<Longrightarrow>
   List.find P xs = Some (xs ! i)"
proof (induction xs arbitrary: i)
  case Nil
  then show ?case by simp
next
  case (Cons x xs)
  then show ?case by (cases i) auto
qed

lemma install_present: "hasOwnProperty p name \<Longrightarrow> install name a p = Inr p"
  by (simp add: install_def)

lemma install_Inr:
  assumes "install name a p = Inr p'"
  shows "own_properties p' = own_properties p @
           (if hasOwnProperty p name then []
            else [(name, \<lparr>accessor = a, configurable = False\<rparr>)])"
    and "extensible p' = extensible p"
  using assms
  by (auto simp: install_def defineProperty_def hasOwnProperty_def split: if_splits option.splits)

lemma install_extensible: "extensible p \<Longrightarrow> \<exists>p'. install name a p = Inr p'"
  by (auto simp: install_def defineProperty_def hasOwnProperty_def split: option.splits)

lemma hasOwnProperty_append:
  "own_properties p' = own_properties p @ qs \<Longrightarrow>
   hasOwnProperty p' k = (hasOwnProperty p k \<or> k \<in> fst ` set qs)"
  by (auto simp: hasOwnProperty_def map_of_append dom_map_of_conv_image_fst [symmetric]
      split: option.splits)

lemma initXmlDom_browser: "initXmlDom True p = Inr p"
  by (simp add: initXmlDom_def)

lemma initXmlDom_headless:
  assumes "initXmlDom False p = Inr p'"
  shows "own_properties p' =
           own_properties p @ filter (\<lambda>q. \<not> hasOwnProperty p (fst q)) shim_properties"
    and "extensible p' = extensible p"
proof -
  from assms obtain p1 p2 where
    1: "install ''firstElementChild'' FirstElementChildGetter p = Inr p1" and
    2: "install ''style'' StyleAccessor p1 = Inr p2" and
    3: "install ''classList'' ClassListAccessor p2 = Inr p'"
    by (auto simp: initXmlDom_def split: sum.splits)
  note a = install_Inr [OF 1] install_Inr [OF 2] install_Inr [OF 3]
  have h1: "hasOwnProperty p1 ''style'' = hasOwnProperty p ''style''"
    using hasOwnProperty_append [OF a(1)] by simp
  have h2: "hasOwnProperty p2 ''classList'' = hasOwnProperty p ''classList''"
    using hasOwnProperty_append [OF a(1)] hasOwnProperty_append [OF a(3)] by simp
  show "own_properties p' =
           own_properties p @ filter (\<lambda>q. \<not> hasOwnProperty p (fst q)) shim_properties"
    using a h1 h2 by (simp add: shim_properties_def)
  show "extensible p' = extensible p"
    using a by simp
qed

lemma initXmlDom_headless_own:
  assumes "initXmlDom False p = Inr p'"
  shows "hasOwnProperty p' ''firstElementChild''" "hasOwnProperty p' ''style''"
    "hasOwnProperty p' ''classList''"
  using hasOwnProperty_append [OF initXmlDom_headless(1) [OF assms]]
  by (auto simp: shim_properties_def)

lemma initXmlDom_all_present:
  "hasOwnProperty p ''firstElementChild'' \<Longrightarrow> hasOwnProperty p ''style'' \<Longrightarrow>
   hasOwnProperty p ''classList'' \<Longrightarrow> initXmlDom b p = Inr p"
  by (simp add: initXmlDom_def install_present)

lemma initXmlDom_extensible: "extensible q \<Longrightarrow> initXmlDom c q \<noteq> Inl TypeError"
proof (cases c)
  case True
  then show ?thesis by (simp add: initXmlDom_browser)
next
  case False
  assume e: "extensible q"
  then obtain p1 where 1: "install ''firstElementChild'' FirstElementChildGetter q = Inr p1"
    using install_extensible by blast
  then have "extensible p1" using e install_Inr(2) by simp
  then obtain p2 where 2: "install ''style'' StyleAccessor p1 = Inr p2"
    using install_extensible by blast
  then have "extensible p2" using \<open>extensible p1\<close> install_Inr(2) by simp
  then obtain p3 where 3: "install ''classList'' ClassListAccessor p2 = Inr p3"
    using install_extensible by blast
  show ?thesis using False 1 2 3 by (simp add: initXmlDom_def)
qed

lemma map_of_filter_key:
  "P k \<Longrightarrow> map_of (filter (\<lambda>q. P (fst q)) xs) k = map_of xs k"
  by (induction xs) auto

lemma distinct_missing:
  "distinct (map fst (own_properties p)) \<Longrightarrow>
   distinct (map fst (own_properties p @ filter (\<lambda>q. \<not> hasOwnProperty p (fst q)) shim_properties))"
  by (auto simp: shim_properties_def hasOwnProperty_def dom_map_of_conv_image_fst [symmetric]
      domIff)

section \<open>The pass over a tree: helper lemmas\<close>

lemma setAttribute_same: "getAttribute k e = Some v \<Longrightarrow> setAttribute k v e = e"
  by (simp add: getAttribute_def setAttribute_def put_attr_same)

lemma fix_rowSpan_twice: "fix_rowSpan (fix_colSpan (fix_rowSpan e)) = fix_colSpan (fix_rowSpan e)"
proof (cases "truthy_number (rowSpan e)")
  case True
  then obtain n where n: "rowSpan e = Some n" "number_truthy n"
    by (auto simp: truthy_number_def split: option.splits)
  have "getAttribute ''rowspan'' (fix_colSpan (fix_rowSpan e)) = Some (toString n)"
    using n by (simp add: getAttribute_fix_colSpan getAttribute_fix_rowSpan split: option.splits)
  then show ?thesis
    using n by (simp add: fix_rowSpan_def [of "fix_colSpan (fix_rowSpan e)"] setAttribute_same)
next
  case False
  then show ?thesis
    by (auto simp: fix_rowSpan_def [of "fix_colSpan (fix_rowSpan e)"] truthy_number_def
        split: option.splits)
qed

lemma fix_colSpan_twice: "fix_colSpan (fix_colSpan e) = fix_colSpan e"
proof (cases "truthy_number (colSpan e)")
  case True
  then obtain n where n: "colSpan e = Some n" "number_truthy n"
    by (auto simp: truthy_number_def split: option.splits)
  have "getAttribute ''colspan'' (fix_colSpan e) = Some (toString n)"
    using n by (simp add: getAttribute_fix_colSpan)
  then show ?thesis
    using n by (simp add: fix_colSpan_def [of "fix_colSpan e"] setAttribute_same)
next
  case False
  then show ?thesis
    by (auto simp: fix_colSpan_def [of "fix_colSpan e"] truthy_number_def split: option.splits)
qed

lemma fix_tag_twice: "fix_tag (fix_tag e) = fix_tag e"
proof (cases "isTableCell e")
  case True
  then have "isTableCell (fix_colSpan (fix_rowSpan e))" by (simp add: isTableCell_def)
  then show ?thesis
    using True by (simp add: fix_tag_def fix_rowSpan_twice fix_colSpan_twice)
next
  case False
  show ?thesis
  proof (cases "isImage e")
    case True
    then have "isImage (fix_src e)" "\<not> isTableCell (fix_src e)"
      using False by (simp_all add: isImage_def isTableCell_def)
    then show ?thesis
      using True False by (simp add: fix_tag_def fix_src_noop src_fix_src)
  next
    case no: False
    then show ?thesis using False by (simp add: fix_tag_def)
  qed
qed

lemma handleElement_fixed:
  "handleElement (fst (handleElement e cs)) ds = (fst (handleElement e cs), ds)"
proof -
  let ?x = "fix_style ((fix_classList (fix_className e))
       \<lparr>innerHTML := (if truthy_string (innerHTML e) then None else innerHTML e)\<rparr>)"
  have e': "fst (handleElement e cs) = fix_tag ?x" by (rule handleElement_fst)
  have i: "\<not> truthy_string (innerHTML (fix_tag ?x))"
    by (simp add: truthy_string_def)
  have c: "\<not> truthy_string (className (fix_tag ?x))"
    by (simp add: className_fix_className)
  have "handleElement (fix_tag ?x) ds =
      (fix_tag (fix_style (fix_classList (fix_className (fix_tag ?x)))), ds)"
    using i by (rule handleElement_falsy)
  also have "fix_className (fix_tag ?x) = fix_tag ?x"
    using c by (rule fix_className_noop)
  also have "fix_classList (fix_tag ?x) = fix_tag ?x"
    by (rule fix_classList_noop) simp
  also have "fix_style (fix_tag ?x) = fix_tag ?x"
    by (rule fix_style_noop) simp
  also have "fix_tag (fix_tag ?x) = fix_tag ?x"
    by (rule fix_tag_twice)
  finally show ?thesis by (simp add: e')
qed

lemma set_handleElement_snd:
  "c \<in> set (snd (handleElement e cs)) \<Longrightarrow> c \<in> set cs \<or> (\<exists>s. c = Text s)"
  by (auto simp: handleElement_snd split: option.splits if_splits)

lemma handleXmlNode_twice:
  "handleXmlNode (handleXmlNode node) = handleXmlNode node"
proof (induction node)
  case (Element e cs)
  have "map handleXmlNode (map handleXmlNode (snd (handleElement e cs))) =
        map handleXmlNode (snd (handleElement e cs))"
  proof (simp, intro ballI)
    fix c assume "c \<in> set (snd (handleElement e cs))"
    then consider "c \<in> set cs" | s where "c = Text s"
      using set_handleElement_snd by blast
    then show "handleXmlNode (handleXmlNode c) = handleXmlNode c"
      using Element.IH by cases simp_all
  qed
  then show ?case
    by (simp add: handleXmlNode_Element handleElement_fixed)
next
  case (DocumentFragment cs)
  then show ?case by simp
qed simp_all

lemma shadow_cleared_handleElement: "shadow_cleared (fst (handleElement e cs))"
proof -
  let ?x = "fix_style ((fix_classList (fix_className e))
       \<lparr>innerHTML := (if truthy_string (innerHTML e) then None else innerHTML e)\<rparr>)"
  have s: "\<not> truthy_string (src (fix_tag ?x))" if "isImage (fix_tag ?x)"
  proof -
    from that have "isImage ?x" "\<not> isTableCell ?x"
      by (simp_all add: isImage_def isTableCell_def)
    then show ?thesis by (simp add: fix_tag_def src_fix_src)
  qed
  show ?thesis
    unfolding handleElement_fst shadow_cleared_def
    using s by (simp add: className_fix_className) (simp add: truthy_string_def)
qed

lemma all_elements_map:
  "(\<And>c. c \<in> set cs \<Longrightarrow> all_elements P (f c)) \<Longrightarrow> list_all (all_elements P) (map f cs)"
  by (simp add: list_all_iff)

lemma all_elements_handleXmlNode:
  assumes "\<And>e cs. P (fst (handleElement e cs))"
  shows "all_elements P (handleXmlNode node)"
proof (induction node)
  case (Element e cs)
  have "list_all (all_elements P) (map handleXmlNode (snd (handleElement e cs)))"
  proof (rule all_elements_map)
    fix c assume "c \<in> set (snd (handleElement e cs))"
    then consider "c \<in> set cs" | s where "c = Text s"
      using set_handleElement_snd by blast
    then show "all_elements P (handleXmlNode c)"
      using Element.IH by cases simp_all
  qed
  then show ?case by (simp add: handleXmlNode_Element assms)
next
  case (DocumentFragment cs)
  then show ?case by (simp add: list_all_iff)
qed simp_all

lemma standard_put_attr:
  "list_all (\<lambda>a. fst a \<in> set standard_names) as \<Longrightarrow> k \<in> set standard_names \<Longrightarrow>
   list_all (\<lambda>a. fst a \<in> set standard_names) (put_attr k v as)"
  by (induction as) auto

lemma standard_setAttribute:
  "standard_attributes e \<Longrightarrow> k \<in> set standard_names \<Longrightarrow>
   standard_attributes (setAttribute k v e)"
  by (simp add: standard_attributes_def standard_put_attr)

lemma standard_update [simp]:
  "standard_attributes (e\<lparr>className := a\<rparr>) = standard_attributes e"
  "standard_attributes (e\<lparr>priv_classList := b\<rparr>) = standard_attributes e"
  "standard_attributes (e\<lparr>innerHTML := c\<rparr>) = standard_attributes e"
  "standard_attributes (e\<lparr>priv_style := d\<rparr>) = standard_attributes e"
  "standard_attributes (e\<lparr>src := f\<rparr>) = standard_attributes e"
  by (simp_all add: standard_attributes_def)

lemma standard_fixups:
  assumes "standard_attributes e"
  shows "standard_attributes (fix_className e)" "standard_attributes (fix_classList e)"
    "standard_attributes (fix_style e)" "standard_attributes (fix_rowSpan e)"
    "standard_attributes (fix_colSpan e)" "standard_attributes (fix_src e)"
  using assms
  by (auto simp: fix_className_def fix_classList_def classList_get_def fix_style_def
      style_get_def fix_rowSpan_def fix_colSpan_def fix_src_def standard_setAttribute
      standard_names_def split: option.splits)

lemma standard_fix_tag: "standard_attributes e \<Longrightarrow> standard_attributes (fix_tag e)"
  by (simp add: fix_tag_def standard_fixups)

lemma standard_handleElement:
  "standard_attributes e \<Longrightarrow> standard_attributes (fst (handleElement e cs))"
  by (simp add: handleElement_fst standard_fix_tag standard_fixups)

lemma standard_handleXmlNode:
  "all_elements standard_attributes node \<Longrightarrow>
   all_elements standard_attributes (handleXmlNode node)"
proof (induction node)
  case (Element e cs)
  have "list_all (all_elements standard_attributes) (map handleXmlNode (snd (handleElement e cs)))"
  proof (rule all_elements_map)
    fix c assume "c \<in> set (snd (handleElement e cs))"
    then consider "c \<in> set cs" | s where "c = Text s"
      using set_handleElement_snd by blast
    then show "all_elements standard_attributes (handleXmlNode c)"
      using Element by cases (simp_all add: list_all_iff)
  qed
  then show ?case using Element.prems
    by (simp add: handleXmlNode_Element standard_handleElement)
next
  case (DocumentFragment cs)
  then show ?case by (simp add: list_all_iff)
qed simp_all

lemma handleElement_kept:
  "rowSpan (fst (handleElement e cs)) = rowSpan e"
  "colSpan (fst (handleElement e cs)) = colSpan e"
  "\<not> isImage e \<Longrightarrow> src (fst (handleElement e cs)) = src e"
  by (simp_all add: handleElement_fst fix_tag_def isImage_def isTableCell_def)

section \<open>Termination of the pass\<close>

text \<open>
  Claim C10. The pass terminates on every tree: every call of \<open>handleXmlNode\<close> and every
  state of its child loop lies in the accessible part of the call relation, although
  the fixup of \<^verbatim>\<open>innerHTML\<close> appends a child before the loop runs and the loop
  reads the length again at each iteration. The measure \<open>walk_measure\<close> goes down at
  each call: from a node to its loop over the child list the fixups leave, from the loop
  at index \<open>i\<close> to the child at \<open>i\<close>, and to the loop at \<open>i + 1\<close> whatever the child
  has become. The appended child is a text node: the pass leaves it as it is, and it
  has no child list to descend into.
\<close>

theorem handleXmlNode_terminates:
  "handleXmlNode_handleChildNodes_dom (Inl node)
   \<and> handleXmlNode_handleChildNodes_dom (Inr (i, cs))
   \<and> (case childNodes (if isElement node then element_fixups node else node) of
        None \<Rightarrow> True
      | Some cs' \<Rightarrow> walk_measure (Inr (0, cs')) < walk_measure (Inl node))
   \<and> (if i < length cs
      then walk_measure (Inl (cs ! i)) < walk_measure (Inr (i, cs))
           \<and> walk_measure (Inr (i + 1, cs[i := c])) < walk_measure (Inr (i, cs))
      else True)
   \<and> handleXmlNode (createTextNode s) = createTextNode s
   \<and> childNodes (createTextNode s) = None"
proof -
  have d: "handleXmlNode_handleChildNodes_dom x" for x
    using walk_all_dom by simp
  have l: "(case childNodes (if isElement node then element_fixups node else node) of
        None \<Rightarrow> True
      | Some cs' \<Rightarrow> walk_measure (Inr (0, cs')) < walk_measure (Inl node))"
    by (simp add: walk_measure_loop split: option.splits)
  from d l show ?thesis
    by (simp add: walk_measure_child walk_measure_next createTextNode_def)
qed

theorem handleXmlNode_terminates_witness:
  "handleXmlNode_handleChildNodes_dom (Inl (Element div_hello [Comment ''c'']))
   \<and> handleXmlNode_handleChildNodes_dom (Inr (0, [Comment ''c'', Text ''Hello & <b>'']))
   \<and> childNodes (element_fixups (Element div_hello [Comment ''c''])) =
       Some [Comment ''c'', Text ''Hello & <b>'']
   \<and> walk_measure (Inr (0, [Comment ''c'', Text ''Hello & <b>''])) = 5
   \<and> walk_measure (Inl (Element div_hello [Comment ''c''])) = 6
   \<and> walk_measure (Inl (Comment ''c'')) = 2
   \<and> walk_measure (Inr (1, [Comment ''c'', Text ''Hello & <b>''])) = 3
   \<and> handleXmlNode (createTextNode ''Hello & <b>'') = createTextNode ''Hello & <b>''
   \<and> childNodes (createTextNode ''Hello & <b>'') = None"
proof -
  have f: "childNodes (element_fixups (Element div_hello [Comment ''c''])) =
       Some [Comment ''c'', Text ''Hello & <b>'']"
    by (simp add: div_hello_def fixup_defs)
  have m: "walk_measure (Inr (0, [Comment ''c'', Text ''Hello & <b>''])) = 5"
    "walk_measure (Inl (Element div_hello [Comment ''c''])) = 6"
    "walk_measure (Inl (Comment ''c'')) = 2"
    "walk_measure (Inr (1, [Comment ''c'', Text ''Hello & <b>''])) = 3"
    by (simp_all add: walk_measure_def div_hello_def createElement_def truthy_string_def)
  from handleXmlNode_terminates
    [of "Element div_hello [Comment ''c'']" 0 "[Comment ''c'', Text ''Hello & <b>'']" _
      "''Hello & <b>''"]
    f m show ?thesis by simp
qed

section \<open>The injected markup\<close>

text \<open>
  Claim C5. On an element whose \<^verbatim>\<open>innerHTML\<close> is a non-empty string \<open>s\<close>, the
  pass appends exactly one child, the text node holding \<open>s\<close> itself, after the
  (normalized) children the element had, and sets \<^verbatim>\<open>innerHTML\<close> to null.
\<close>

theorem innerHTML_appended:
  assumes "innerHTML e = Some s" and "s \<noteq> []"
    and "handleXmlNode (Element e cs) = Element e' cs'"
  shows "cs' = map handleXmlNode cs @ [Text s] \<and> length cs' = Suc (length cs)
    \<and> innerHTML e' = None"
proof -
  have h: "handleElement e cs =
      (fix_tag (fix_style ((fix_classList (fix_className e))\<lparr>innerHTML := None\<rparr>)), cs @ [Text s])"
    using assms(1,2) by (rule handleElement_truthy)
  from assms(3) show ?thesis
    by (auto simp: handleXmlNode_Element h)
qed

theorem innerHTML_appended_witness:
  "innerHTML div_hello = Some ''Hello & <b>'' \<and> ''Hello & <b>'' \<noteq> []
   \<and> handleXmlNode (Element div_hello [Comment ''c'']) =
       Element (div_hello\<lparr>innerHTML := None\<rparr>) [Comment ''c'', Text ''Hello & <b>'']"
proof -
  have i: "innerHTML div_hello = Some ''Hello & <b>''" by (simp add: div_hello_def)
  have n: "''Hello & <b>'' \<noteq> []" by simp
  obtain e' cs' where r: "handleXmlNode (Element div_hello [Comment ''c'']) = Element e' cs'"
    by (simp add: handleXmlNode_Element)
  have e: "e' = div_hello\<lparr>innerHTML := None\<rparr>"
    using r by (auto simp: handleXmlNode_Element fixup_defs div_hello_def)
  from innerHTML_appended [OF i n r] r e i n show ?thesis by simp
qed

section \<open>Table cells\<close>




section \<open>Tag classification\<close>

text \<open>
  Claim C9. The normalizer classifies by an exact comparison with the tag names
  \<^verbatim>\<open>td\<close> and \<^verbatim>\<open>img\<close>. On an element with any other tag name, among them
  \<^verbatim>\<open>TD\<close> and \<^verbatim>\<open>IMG\<close>, the pass leaves the attributes \<^verbatim>\<open>rowspan\<close>,
  \<^verbatim>\<open>colspan\<close> and \<^verbatim>\<open>src\<close> as they were and does not clear the source scalar
  (nor the spans), whatever the scalars hold.
\<close>

theorem tag_match_exact:
  assumes "tagName e \<noteq> ''td''" and "tagName e \<noteq> ''img''"
    and "handleXmlNode (Element e cs) = Element e' cs'"
  shows "getAttribute ''rowspan'' e' = getAttribute ''rowspan'' e
       \<and> getAttribute ''colspan'' e' = getAttribute ''colspan'' e
       \<and> getAttribute ''src'' e' = getAttribute ''src'' e
       \<and> src e' = src e \<and> rowSpan e' = rowSpan e \<and> colSpan e' = colSpan e
       \<and> \<not> isTableCell (createElement ''TD'') \<and> \<not> isImage (createElement ''TD'')
       \<and> \<not> isTableCell (createElement ''IMG'') \<and> \<not> isImage (createElement ''IMG'')"
proof -
  have e': "e' = fst (handleElement e cs)"
    using assms(3) by (simp add: handleXmlNode_Element)
  let ?e3 = "(fix_classList (fix_className e))
       \<lparr>innerHTML := (if truthy_string (innerHTML e) then None else innerHTML e)\<rparr>"
  have t: "e' = fix_style ?e3"
    using assms(1,2) by (simp add: e' handleElement_fst fix_tag_def isTableCell_def isImage_def)
  have a: "getAttribute k e' = getAttribute k e" if "k \<noteq> ''class''" "k \<noteq> ''style''" for k
    unfolding t using that by (rule getAttribute_rules_1_4)
  have f: "src e' = src e" "rowSpan e' = rowSpan e" "colSpan e' = colSpan e"
    unfolding t by simp_all
  have g: "\<not> isTableCell (createElement ''TD'') \<and> \<not> isImage (createElement ''TD'')
       \<and> \<not> isTableCell (createElement ''IMG'') \<and> \<not> isImage (createElement ''IMG'')"
    by (simp add: isTableCell_def isImage_def createElement_def)
  from a [of "''rowspan''"] a [of "''colspan''"] a [of "''src''"] f g show ?thesis
    by simp
qed

theorem tag_match_exact_witness:
  "tagName upper_TD \<noteq> ''td'' \<and> tagName upper_TD \<noteq> ''img''
   \<and> handleXmlNode (Element upper_TD []) = Element upper_TD []
   \<and> getAttribute ''rowspan'' upper_TD = None \<and> getAttribute ''colspan'' upper_TD = None
   \<and> getAttribute ''src'' upper_TD = None \<and> src upper_TD = Some ''a.png''
   \<and> handleXmlNode (Element upper_IMG []) = Element upper_IMG []"
proof -
  have a: "tagName upper_TD \<noteq> ''td''" "tagName upper_TD \<noteq> ''img''"
    by (simp_all add: upper_TD_def createElement_def)
  have h: "handleXmlNode (Element upper_TD []) = Element upper_TD []"
    by (simp add: handleXmlNode_Element upper_TD_def fixup_defs)
  have i: "handleXmlNode (Element upper_IMG []) = Element upper_IMG []"
    by (simp add: handleXmlNode_Element upper_IMG_def fixup_defs)
  have g: "getAttribute ''rowspan'' upper_TD = None" "getAttribute ''colspan'' upper_TD = None"
    "getAttribute ''src'' upper_TD = None" "src upper_TD = Some ''a.png''"
    by (simp_all add: upper_TD_def createElement_def getAttribute_def)
  from tag_match_exact [OF a h] a h i g show ?thesis by simp
qed

section \<open>The class-token list\<close>

text \<open>
  Claim C2, as stated, fails on a token list that is present and empty: the test of
  line 103 holds for every array, so the class attribute written from
  \<^verbatim>\<open>className\<close> is overwritten by the empty string and the list is cleared.
\<close>

theorem classList_empty_counterexample:
  "priv_classList class_a_empty = Some []
   \<and> getAttribute ''class'' (fix_className class_a_empty) = Some ''a''
   \<and> fix_classList (fix_className class_a_empty) \<noteq> fix_className class_a_empty
   \<and> handleXmlNode (Element class_a_empty []) =
       Element ((createElement ''div'')\<lparr>attributes := [(''class'', '''')]\<rparr>) []"
  by (simp add: handleXmlNode_Element class_a_empty_def fixup_defs fix_classList_noop_iff)

text \<open>
  Claim C2, amended. The rule of the token list is a no-op exactly when the list is null.
  After the pass the list is null; when it was an array, also an empty one, the class
  attribute is its tokens joined by single spaces (the empty string for no token),
  whatever \<^verbatim>\<open>className\<close> wrote; when it was null, the class attribute is the one
  the preceding rule left: a truthy \<^verbatim>\<open>className\<close>, or else the attribute as it was.
\<close>

theorem classList_rule:
  assumes "handleXmlNode (Element e cs) = Element e' cs'"
  shows "(fix_classList x = x) = (priv_classList x = None)
       \<and> priv_classList e' = None
       \<and> getAttribute ''class'' e' =
           (case priv_classList e of
              Some tokens \<Rightarrow> Some (join '' '' tokens)
            | None \<Rightarrow> if truthy_string (className e) then className e
                      else getAttribute ''class'' e)"
proof -
  have e': "e' = fst (handleElement e cs)"
    using assms by (simp add: handleXmlNode_Element)
  have c: "priv_classList e' = None"
    by (simp add: e' handleElement_fst)
  have "getAttribute ''class'' e' = getAttribute ''class'' (fix_classList (fix_className e))"
    by (simp add: e' handleElement_fst getAttribute_fix_tag_other getAttribute_fix_style_other)
  also have "\<dots> = (case priv_classList e of
              Some tokens \<Rightarrow> Some (join '' '' tokens)
            | None \<Rightarrow> if truthy_string (className e) then className e
                      else getAttribute ''class'' e)"
  proof (cases "priv_classList e")
    case None
    then show ?thesis
      by (simp add: fix_classList_noop getAttribute_fix_className)
  next
    case (Some tokens)
    then have "priv_classList (fix_className e) = Some tokens" by simp
    then show ?thesis using Some by (simp add: getAttribute_fix_classList)
  qed
  finally show ?thesis using c fix_classList_noop_iff by blast
qed

theorem classList_rule_witness:
  "handleXmlNode (Element class_x_y []) =
     Element ((createElement ''div'')\<lparr>attributes := [(''class'', ''x y'')]\<rparr>) []
   \<and> fix_classList class_x_y \<noteq> class_x_y
   \<and> fix_classList (createElement ''div'') = createElement ''div''
   \<and> getAttribute ''class'' ((createElement ''div'')\<lparr>attributes := [(''class'', ''x y'')]\<rparr>)
       = Some (join '' '' [''x'', ''y''])"
proof -
  have h: "handleXmlNode (Element class_x_y []) =
     Element ((createElement ''div'')\<lparr>attributes := [(''class'', ''x y'')]\<rparr>) []"
    by (simp add: handleXmlNode_Element class_x_y_def fixup_defs)
  have p: "priv_classList class_x_y = Some [''x'', ''y'']" "priv_classList (createElement ''div'') = None"
    by (simp_all add: class_x_y_def createElement_def)
  from classList_rule [OF h, of class_x_y] classList_rule [OF h, of "createElement ''div''"] h p
  show ?thesis by simp
qed

section \<open>The style mapping\<close>

text \<open>
  Claim C3, as stated, fails twice. A leading uppercase letter gains a hyphen like any
  other (\<^verbatim>\<open>WebkitTransform\<close> becomes \<^verbatim>\<open>-webkit-transform\<close>), and a style mapping
  that is present and empty is written as the style attribute, the empty string.
\<close>

theorem style_rule_counterexample:
  "kebab_internal ''WebkitTransform'' = ''webkit-transform''
   \<and> handleXmlNode (Element style_webkit []) =
       Element ((createElement ''div'')
         \<lparr>attributes := [(''style'', ''-webkit-transform: none; font-size: 12pt'')]\<rparr>) []
   \<and> priv_style style_empty = Some []
   \<and> handleXmlNode (Element style_empty []) =
       Element ((createElement ''div'')\<lparr>attributes := [(''style'', '''')]\<rparr>) []"
proof -
  have a: "kebab_internal ''WebkitTransform'' = ''webkit-transform''"
    by (simp add: kebab_internal_def isUpperAZ_def toLowerCase_def upper_AZ_def lower_az_def)
  have b: "handleXmlNode (Element style_webkit []) =
       Element ((createElement ''div'')
         \<lparr>attributes := [(''style'', ''-webkit-transform: none; font-size: 12pt'')]\<rparr>) []"
    by (simp add: handleXmlNode_Element style_webkit_def fixup_defs
        kebabCase_WebkitTransform kebabCase_fontSize)
  have c: "handleXmlNode (Element style_empty []) =
       Element ((createElement ''div'')\<lparr>attributes := [(''style'', '''')]\<rparr>) []"
    by (simp add: handleXmlNode_Element style_empty_def fixup_defs)
  have d: "priv_style style_empty = Some []"
    by (simp add: style_empty_def)
  from a b c d show ?thesis by blast
qed

text \<open>
  Claim C3, amended. The rule of the style mapping is a no-op exactly when the mapping is
  null. After the pass the mapping is null; when it was an object, also an empty one, the
  style attribute is its entries, in the order of its keys, each rendered as
  \<open>name: value\<close> and joined by \<open>; \<close> (for an object, whose keys are distinct, entry by
  entry); when it was null, the style attribute is as it was. Each name is converted by
  a hyphen before every uppercase letter \<^verbatim>\<open>A\<close> to \<^verbatim>\<open>Z\<close> and lower-casing it: the
  conversion that hyphenates internal letters only, with a hyphen in front when the
  name starts with an uppercase letter.
\<close>

theorem style_rule:
  assumes "handleXmlNode (Element e cs) = Element e' cs'"
  shows "(fix_style x = x) = (priv_style x = None)
       \<and> priv_style e' = None
       \<and> (case priv_style e of
            Some obj \<Rightarrow>
              getAttribute ''style'' e' =
                Some (join ''; '' (map (\<lambda>key. kebabCase key @ '': '' @ property_value obj key)
                                      (object_keys obj)))
              \<and> (if distinct (map fst obj)
                 then getAttribute ''style'' e' =
                        Some (join ''; '' (map (\<lambda>(key, v). kebabCase key @ '': '' @ v) obj))
                 else True)
          | None \<Rightarrow> getAttribute ''style'' e' = getAttribute ''style'' e)
       \<and> kebabCase p = (if p \<noteq> [] \<and> isUpperAZ (hd p) then ''-'' else []) @ kebab_internal p"
proof -
  have e': "e' = fst (handleElement e cs)"
    using assms by (simp add: handleXmlNode_Element)
  let ?e3 = "(fix_classList (fix_className e))
       \<lparr>innerHTML := (if truthy_string (innerHTML e) then None else innerHTML e)\<rparr>"
  have c: "priv_style e' = None"
    by (simp add: e' handleElement_fst)
  have g: "getAttribute ''style'' e' = getAttribute ''style'' (fix_style ?e3)"
    by (simp add: e' handleElement_fst getAttribute_fix_tag_other)
  have p: "priv_style ?e3 = priv_style e" by simp
  have o: "getAttribute ''style'' ?e3 = getAttribute ''style'' e"
    by (simp add: getAttribute_fix_classList_other getAttribute_fix_className)
  have s: "(case priv_style e of
            Some obj \<Rightarrow>
              getAttribute ''style'' e' =
                Some (join ''; '' (map (\<lambda>key. kebabCase key @ '': '' @ property_value obj key)
                                      (object_keys obj)))
              \<and> (if distinct (map fst obj)
                 then getAttribute ''style'' e' =
                        Some (join ''; '' (map (\<lambda>(key, v). kebabCase key @ '': '' @ v) obj))
                 else True)
          | None \<Rightarrow> getAttribute ''style'' e' = getAttribute ''style'' e)"
  proof (cases "priv_style e")
    case None
    then show ?thesis using p o g by (simp add: fix_style_noop)
  next
    case (Some obj)
    then have q: "priv_style ?e3 = Some obj" using p by simp
    have "getAttribute ''style'' e' =
        Some (join ''; '' (map (\<lambda>key. kebabCase key @ '': '' @ property_value obj key)
                                      (object_keys obj)))"
      unfolding g by (simp add: getAttribute_fix_style [OF q])
    then show ?thesis
      using Some property_value_entries [of obj "\<lambda>key v. kebabCase key @ '': '' @ v"]
      by simp
  qed
  from c s fix_style_noop_iff kebabCase_leading show ?thesis by blast
qed

theorem style_rule_witness:
  "handleXmlNode (Element style_font []) =
     Element ((createElement ''div'')
       \<lparr>attributes := [(''style'', ''font-size: 12pt; color: red'')]\<rparr>) []
   \<and> distinct (map fst [(''fontSize'', ''12pt''), (''color'', ''red'')])
   \<and> getAttribute ''style'' ((createElement ''div'')
       \<lparr>attributes := [(''style'', ''font-size: 12pt; color: red'')]\<rparr>) =
       Some (join ''; '' (map (\<lambda>(key, v). kebabCase key @ '': '' @ v)
         [(''fontSize'', ''12pt''), (''color'', ''red'')]))
   \<and> fix_style style_font \<noteq> style_font
   \<and> kebabCase ''WebkitTransform'' = ''-'' @ kebab_internal ''WebkitTransform''"
proof -
  have h: "handleXmlNode (Element style_font []) =
     Element ((createElement ''div'')
       \<lparr>attributes := [(''style'', ''font-size: 12pt; color: red'')]\<rparr>) []"
    by (simp add: handleXmlNode_Element style_font_def fixup_defs kebabCase_fontSize)
      (simp add: letter_defs)
  have p: "priv_style style_font = Some [(''fontSize'', ''12pt''), (''color'', ''red'')]"
    by (simp add: style_font_def)
  have d: "distinct (map fst [(''fontSize'', ''12pt''), (''color'', ''red'')])"
    by simp
  have u: "isUpperAZ (hd ''WebkitTransform'')"
    by (simp add: isUpperAZ_def upper_AZ_def)
  from style_rule [OF h, of style_font "''WebkitTransform''"] h p d u show ?thesis
    by (simp add: object_keys_def property_value_def)
qed

section \<open>The first element child\<close>

text \<open>
  On a node that has a child list the accessor returns the first child, in child order,
  that is an element (the child at index \<open>i\<close> when no child before it is an element),
  and null when no child is an element.
\<close>

lemma firstElementChild_first:
  assumes "childNodes this = Some children"
  shows "firstElementChild_get this = Inr (List.find isElement children)
       \<and> (if list_all (\<lambda>c. \<not> isElement c) children
          then firstElementChild_get this = Inr None
          else firstElementChild_get this =
                 Inr (Some (hd (dropWhile (\<lambda>c. \<not> isElement c) children))))
       \<and> (i < length children \<and> isElement (children ! i)
            \<and> list_all (\<lambda>c. \<not> isElement c) (take i children)
          \<longrightarrow> firstElementChild_get this = Inr (Some (children ! i)))
       \<and> getFirstElementChild None = Inr None"
proof -
  have f: "firstElementChild_get this = Inr (List.find isElement children)"
    using assms
    by (simp add: firstElementChild_get_def getFirstElementChild_def firstElementFrom_find)
  have a: "List.find isElement children = None" if "list_all (\<lambda>c. \<not> isElement c) children"
    using that by (simp add: find_None_iff list_all_iff)
  have b: "List.find isElement children = Some (hd (dropWhile (\<lambda>c. \<not> isElement c) children))"
    if "\<not> list_all (\<lambda>c. \<not> isElement c) children"
    using that by (induction children) auto
  have c: "List.find isElement children = Some (children ! i)"
    if "i < length children" "isElement (children ! i)"
      "list_all (\<lambda>c. \<not> isElement c) (take i children)"
    using that by (rule find_first)
  have n: "getFirstElementChild None = Inr None"
    by (simp add: getFirstElementChild_def)
  from f a b c n show ?thesis by auto
qed

text \<open>
  Claim C8. For every node, the accessor returns the first child that is an element, and
  null when no child is an element. The code does so on the nodes that have a child
  list, and not on the others: on a text node, which has no element child,
  \<^verbatim>\<open>childNodes\<close> is null, \<^verbatim>\<open>children.length\<close> is read with no test, and the
  accessor throws a \<^verbatim>\<open>TypeError\<close> where the claim has it return null. What the
  accessor returns on any node is the second conjunct; \<^verbatim>\<open>getFirstElementChild\<close>
  does return null when the node itself is null (line 192).
\<close>

theorem firstElementChild_text_node:
  "firstElementChild_get (createTextNode ''x'') = Inl TypeError
   \<and> firstElementChild_get this =
       (case childNodes this of
          None \<Rightarrow> Inl TypeError
        | Some children \<Rightarrow> Inr (List.find isElement children))
   \<and> getFirstElementChild None = Inr None"
  by (simp add: firstElementChild_get_def getFirstElementChild_def firstElementFrom_find
      createTextNode_def split: option.splits)

section \<open>Installing the shim\<close>

text \<open>
  Claim C7. When \<^verbatim>\<open>initXmlDom\<close> has run without throwing, a second run returns the
  same prototype and does not throw. The first run appends, in order, exactly those of
  the three properties the prototype did not have as its own (none in a browser): a
  property the prototype had keeps its descriptor, a missing one gets the shim's
  accessor; distinct property names stay distinct; outside a browser all three are own
  properties afterwards. On an extensible prototype the first run does not throw.
\<close>

theorem initXmlDom_idempotent:
  assumes "initXmlDom b proto = Inr proto'"
  shows "initXmlDom b proto' = Inr proto'
       \<and> own_properties proto' = own_properties proto @
           (if b then [] else filter (\<lambda>q. \<not> hasOwnProperty proto (fst q)) shim_properties)
       \<and> (case map_of (own_properties proto) name of
            Some d \<Rightarrow> map_of (own_properties proto') name = Some d
          | None \<Rightarrow> map_of (own_properties proto') name =
                     (if b then None else map_of shim_properties name))
       \<and> (if distinct (map fst (own_properties proto))
          then distinct (map fst (own_properties proto')) else True)
       \<and> (if b then True
          else hasOwnProperty proto' ''firstElementChild'' \<and> hasOwnProperty proto' ''style''
               \<and> hasOwnProperty proto' ''classList'')
       \<and> (if extensible q then initXmlDom c q \<noteq> Inl TypeError else True)"
proof (cases b)
  case True
  with assms have "proto' = proto" by (simp add: initXmlDom_browser)
  then show ?thesis using True initXmlDom_extensible [of q c]
    by (auto simp: initXmlDom_browser split: option.splits)
next
  case False
  with assms have r: "initXmlDom False proto = Inr proto'" by simp
  note o = initXmlDom_headless(1) [OF r]
  note h = initXmlDom_headless_own [OF r]
  have 1: "initXmlDom b proto' = Inr proto'"
    using h by (rule initXmlDom_all_present)
  have 3: "(case map_of (own_properties proto) name of
            Some d \<Rightarrow> map_of (own_properties proto') name = Some d
          | None \<Rightarrow> map_of (own_properties proto') name =
                     (if b then None else map_of shim_properties name))"
  proof (cases "map_of (own_properties proto) name")
    case None
    then have "\<not> hasOwnProperty proto name" by (simp add: hasOwnProperty_def)
    then have "map_of (filter (\<lambda>q. \<not> hasOwnProperty proto (fst q)) shim_properties) name
        = map_of shim_properties name"
      by (rule map_of_filter_key)
    then show ?thesis using None False by (simp add: o map_add_def)
  next
    case (Some d)
    then show ?thesis by (simp add: o map_add_def)
  qed
  have 4: "distinct (map fst (own_properties proto'))" if "distinct (map fst (own_properties proto))"
    unfolding o using that by (rule distinct_missing)
  from 1 o 3 4 h False initXmlDom_extensible [of q c] show ?thesis by simp
qed

theorem initXmlDom_idempotent_witness:
  "initXmlDom False native_proto =
     Inr (native_proto\<lparr>own_properties := own_properties native_proto @
       [(''firstElementChild'', \<lparr>accessor = FirstElementChildGetter, configurable = False\<rparr>),
        (''classList'', \<lparr>accessor = ClassListAccessor, configurable = False\<rparr>)]\<rparr>)
   \<and> initXmlDom False (native_proto\<lparr>own_properties := own_properties native_proto @
       [(''firstElementChild'', \<lparr>accessor = FirstElementChildGetter, configurable = False\<rparr>),
        (''classList'', \<lparr>accessor = ClassListAccessor, configurable = False\<rparr>)]\<rparr>) =
     Inr (native_proto\<lparr>own_properties := own_properties native_proto @
       [(''firstElementChild'', \<lparr>accessor = FirstElementChildGetter, configurable = False\<rparr>),
        (''classList'', \<lparr>accessor = ClassListAccessor, configurable = False\<rparr>)]\<rparr>)
   \<and> map_of (own_properties native_proto) ''style''
       = Some \<lparr>accessor = Native 1, configurable = True\<rparr>
   \<and> distinct (map fst (own_properties native_proto))
   \<and> extensible native_proto"
proof -
  let ?p = "native_proto\<lparr>own_properties := own_properties native_proto @
       [(''firstElementChild'', \<lparr>accessor = FirstElementChildGetter, configurable = False\<rparr>),
        (''classList'', \<lparr>accessor = ClassListAccessor, configurable = False\<rparr>)]\<rparr>"
  have r: "initXmlDom False native_proto = Inr ?p"
    by (simp add: initXmlDom_def install_def defineProperty_def hasOwnProperty_def
        native_proto_def)
  have s: "map_of (own_properties native_proto) ''style''
       = Some \<lparr>accessor = Native 1, configurable = True\<rparr>"
    "distinct (map fst (own_properties native_proto))" "extensible native_proto"
    by (simp_all add: native_proto_def)
  have "initXmlDom False ?p = Inr ?p"
    using initXmlDom_idempotent [OF r, of "''style''" native_proto False] by (rule conjunct1)
  with r s show ?thesis by (intro conjI)
qed

section \<open>Idempotence of the pass\<close>

text \<open>
  Claim C4. A second pass changes nothing: the tree after two passes, with its
  attributes, children and shadow fields, is the tree after one pass; and on an element
  the first pass has handled, the fixups of lines 99-130 are a no-op, whatever its
  children.
\<close>

theorem handleXmlNode_idempotent:
  "handleXmlNode (handleXmlNode node) = handleXmlNode node
   \<and> handleElement (fst (handleElement e cs)) ds = (fst (handleElement e cs), ds)"
  by (simp add: handleXmlNode_twice handleElement_fixed)

theorem handleXmlNode_idempotent_witness:
  "handleXmlNode (handleXmlNode (Element td_2_3 [Element div_hello []])) =
     handleXmlNode (Element td_2_3 [Element div_hello []])
   \<and> handleXmlNode (Element td_2_3 [Element div_hello []]) =
       Element (td_2_3\<lparr>attributes := [(''rowspan'', ''2''), (''colspan'', ''3'')]\<rparr>)
         [Element (createElement ''div'') [Text ''Hello & <b>'']]"
proof -
  have "handleXmlNode (Element td_2_3 [Element div_hello []]) =
       Element (td_2_3\<lparr>attributes := [(''rowspan'', ''2''), (''colspan'', ''3'')]\<rparr>)
         [Element (createElement ''div'') [Text ''Hello & <b>'']]"
    by (simp add: handleXmlNode_Element td_2_3_def div_hello_def fixup_defs toString_2 toString_3)
  with handleXmlNode_idempotent [of "Element td_2_3 [Element div_hello []]"]
  show ?thesis by blast
qed

section \<open>What the pass clears\<close>

text \<open>
  Claim C1, as stated, fails three times: the pass never clears the span scalars of a
  table cell, it clears the source scalar on an image only, and it removes no
  attribute, so an attribute outside the five standard ones stays.
\<close>

theorem shadow_state_counterexample:
  "\<not> all_elements shadow_free (handleXmlNode (Element td_2_3 []))
   \<and> handleXmlNode (Element iframe_src []) = Element iframe_src []
   \<and> \<not> all_elements shadow_free (handleXmlNode (Element iframe_src []))
   \<and> handleXmlNode (Element div_id []) = Element div_id []
   \<and> \<not> all_elements standard_attributes (handleXmlNode (Element div_id []))"
proof -
  have a: "handleXmlNode (Element td_2_3 []) =
       Element (td_2_3\<lparr>attributes := [(''rowspan'', ''2''), (''colspan'', ''3'')]\<rparr>) []"
    by (simp add: handleXmlNode_Element td_2_3_def fixup_defs toString_2 toString_3)
  have b: "handleXmlNode (Element iframe_src []) = Element iframe_src []"
    by (simp add: handleXmlNode_Element iframe_src_def fixup_defs)
  have c: "handleXmlNode (Element div_id []) = Element div_id []"
    by (simp add: handleXmlNode_Element div_id_def fixup_defs)
  have a': "\<not> all_elements shadow_free (handleXmlNode (Element td_2_3 []))"
    unfolding a by (simp add: shadow_free_def td_2_3_def truthy_number_def)
  have b': "\<not> all_elements shadow_free (handleXmlNode (Element iframe_src []))"
    unfolding b by (simp add: shadow_free_def iframe_src_def truthy_string_def)
  have c': "\<not> all_elements standard_attributes (handleXmlNode (Element div_id []))"
    unfolding c by (simp add: standard_attributes_def standard_names_def div_id_def)
  from a' b b' c c' show ?thesis by blast
qed

text \<open>
  Claim C1, amended. After one pass, on every element of the tree the class name and the
  injected markup are null or empty, the token list and the style mapping are null, and
  on every image the source is null or empty. A tree whose elements carry only the
  attributes class, style, rowspan, colspan and src before the pass carries only those
  after it. The pass leaves the span scalars of an element as they were, and the source
  scalar of an element that is not an image.
\<close>

theorem shadow_state_cleared:
  "all_elements shadow_cleared (handleXmlNode node)
   \<and> (if all_elements standard_attributes node
      then all_elements standard_attributes (handleXmlNode node) else True)
   \<and> (case handleXmlNode (Element e cs) of
        Element e' cs' \<Rightarrow>
          rowSpan e' = rowSpan e \<and> colSpan e' = colSpan e
          \<and> (if isImage e then True else src e' = src e)
      | _ \<Rightarrow> False)"
  using all_elements_handleXmlNode [of shadow_cleared node, OF shadow_cleared_handleElement]
    standard_handleXmlNode [of node]
  by (simp add: handleXmlNode_Element handleElement_kept)

theorem shadow_state_cleared_witness:
  "all_elements standard_attributes (DocumentFragment [Element img_data [], Element td_2_3 [Text ''t'']])
   \<and> handleXmlNode (DocumentFragment [Element img_data [], Element td_2_3 [Text ''t'']]) =
       DocumentFragment
         [Element ((createElement ''img'')
            \<lparr>attributes := [(''class'', ''pic''), (''src'', ''data:image/png;base64,AAAA'')]\<rparr>) [],
          Element (td_2_3\<lparr>attributes := [(''rowspan'', ''2''), (''colspan'', ''3'')]\<rparr>) [Text ''t'']]
   \<and> all_elements shadow_cleared
        (handleXmlNode (DocumentFragment [Element img_data [], Element td_2_3 [Text ''t'']]))
   \<and> all_elements standard_attributes
        (handleXmlNode (DocumentFragment [Element img_data [], Element td_2_3 [Text ''t'']]))"
proof -
  let ?t = "DocumentFragment [Element img_data [], Element td_2_3 [Text ''t'']]"
  have s: "all_elements standard_attributes ?t"
    by (simp add: standard_attributes_def img_data_def td_2_3_def createElement_def)
  have h: "handleXmlNode ?t =
       DocumentFragment
         [Element ((createElement ''img'')
            \<lparr>attributes := [(''class'', ''pic''), (''src'', ''data:image/png;base64,AAAA'')]\<rparr>) [],
          Element (td_2_3\<lparr>attributes := [(''rowspan'', ''2''), (''colspan'', ''3'')]\<rparr>) [Text ''t'']]"
    by (simp add: handleXmlNode_Element img_data_def td_2_3_def fixup_defs toString_2 toString_3)
  from shadow_state_cleared [of ?t img_data "[]"] s h show ?thesis
    by simp
qed

end
